theory Spec2Isabelle
  imports Complex_Main "HOL-Library.Sublist"
begin

section \<open>Python string primitives\<close>

text \<open>
  A Python \<open>str\<close> is modelled as a \<open>string\<close> whose characters are the code points
  0..255 (Latin-1 text). The primitives below are the \<open>str\<close> methods that
  \<open>core/interview_state.py\<close> and \<open>core/ai_engine.py\<close> call.
\<close>

text \<open>\<open>c.isspace()\<close> for one character; also what \<open>\s\<close> matches in \<open>re\<close>.\<close>

definition is_space :: "char \<Rightarrow> bool" where
  "is_space c = (let n = (of_char c :: nat) in
     (9 \<le> n \<and> n \<le> 13) \<or> (28 \<le> n \<and> n \<le> 32) \<or> n = 133 \<or> n = 160)"

text \<open>\<open>str.lower()\<close>, character by character.\<close>

definition lower_char :: "char \<Rightarrow> char" where
  "lower_char c = (let n = (of_char c :: nat) in
     if (65 \<le> n \<and> n \<le> 90) \<or> (192 \<le> n \<and> n \<le> 222 \<and> n \<noteq> 215)
     then char_of (n + 32) else c)"

definition lower :: "string \<Rightarrow> string" where
  "lower s = map lower_char s"

text \<open>
  \<open>str.upper()\<close>. The three Latin-1 letters whose upper case lies outside Latin-1
  (code points 181, 223, 255) are left as they are; none of them maps to a character
  of the tag \<open>[WRONG]\<close>, the only text \<open>upper()\<close> is searched for.
\<close>

definition upper_char :: "char \<Rightarrow> char" where
  "upper_char c = (let n = (of_char c :: nat) in
     if (97 \<le> n \<and> n \<le> 122) \<or> (224 \<le> n \<and> n \<le> 254 \<and> n \<noteq> 247)
     then char_of (n - 32) else c)"

definition upper :: "string \<Rightarrow> string" where
  "upper s = map upper_char s"

text \<open>\<open>s.strip()\<close> and \<open>s.strip(chars)\<close>.\<close>

definition strip_chars :: "(char \<Rightarrow> bool) \<Rightarrow> string \<Rightarrow> string" where
  "strip_chars p s = rev (dropWhile p (rev (dropWhile p s)))"

definition strip :: "string \<Rightarrow> string" where
  "strip s = strip_chars is_space s"

text \<open>\<open>s.split()\<close>: the maximal runs of non-whitespace characters, in order.\<close>

fun split_acc :: "string \<Rightarrow> string \<Rightarrow> string list" where
  "split_acc cur [] = (if cur = [] then [] else [cur])"
| "split_acc cur (c # cs) =
     (if is_space c
      then (if cur = [] then split_acc [] cs else cur # split_acc [] cs)
      else split_acc (cur @ [c]) cs)"

definition split :: "string \<Rightarrow> string list" where
  "split s = split_acc [] s"

text \<open>\<open>sub in s\<close>.\<close>

fun contains :: "string \<Rightarrow> string \<Rightarrow> bool" where
  "contains sub [] = (sub = [])"
| "contains sub (c # cs) = (prefix sub (c # cs) \<or> contains sub cs)"

text \<open>
  \<open>s.replace(old, new)\<close> for a non-empty \<open>old\<close> (every call site passes a literal):
  occurrences are replaced from left to right without overlap. The counter is the number
  of characters of the occurrence just replaced that are still to be skipped.
\<close>

fun replace_from :: "nat \<Rightarrow> string \<Rightarrow> string \<Rightarrow> string \<Rightarrow> string" where
  "replace_from k old new [] = []"
| "replace_from k old new (c # cs) =
     (if 0 < k then replace_from (k - 1) old new cs
      else if prefix old (c # cs) then new @ replace_from (length old - 1) old new cs
      else c # replace_from 0 old new cs)"

definition replace :: "string \<Rightarrow> string \<Rightarrow> string \<Rightarrow> string" where
  "replace old new s = replace_from 0 old new s"

section \<open>Classifiers of \<open>InterviewStateMachine\<close>\<close>

text \<open>
  \<open>_is_garbage_input\<close>. The quotient \<open>short_words / len(words)\<close> is Python's true
  division of two integers compared with the literal \<open>0.6\<close>; it is taken here as the
  exact quotient compared with 6/10.
\<close>

definition is_garbage_input :: "string \<Rightarrow> bool" where
  "is_garbage_input text =
     (if text = [] \<or> length text < 3 then True
      else if strip (lower text) \<in> set [''the'', ''a'', ''an'', ''uh'', ''um''] then True
      else
        let words = split text in
        if length words > 3 \<and>
           (let short_words = length (filter (\<lambda>w. length w \<le> 2) words)
            in real short_words / real (length words) > 0.6)
        then True
        else False)"

text \<open>\<open>_is_asking_for_hint\<close> and \<open>_seems_finished\<close>.\<close>

definition hint_keywords :: "string list" where
  "hint_keywords =
     [''hint'', ''help'', ''stuck'', ''don't know'', ''not sure'', ''confused'', ''clue'']"

definition is_asking_for_hint :: "string \<Rightarrow> bool" where
  "is_asking_for_hint user_input = list_ex (\<lambda>kw. contains kw (lower user_input)) hint_keywords"

definition done_keywords :: "string list" where
  "done_keywords =
     [''done'', ''finished'', ''complete'', ''that's it'', ''that's my solution'',
      ''works'', ''should work'']"

definition seems_finished :: "string \<Rightarrow> bool" where
  "seems_finished user_input = list_ex (\<lambda>kw. contains kw (lower user_input)) done_keywords"

text \<open>
  The garbage classifier in the words of the specification: length below 3; or, lower-cased
  and trimmed, one of the five stop words; or more than 3 whitespace-separated words of
  which strictly more than 60 percent have length at most 2.
\<close>

definition garbage_spec :: "string \<Rightarrow> bool" where
  "garbage_spec u =
     (length u < 3 \<or>
      strip (lower u) \<in> {''the'', ''a'', ''an'', ''uh'', ''um''} \<or>
      (length (split u) > 3 \<and>
       100 * length (filter (\<lambda>w. length w \<le> 2) (split u)) > 60 * length (split u)))"

section \<open>\<open>_parse_question_response\<close>\<close>

text \<open>
  The three \<open>re.search\<close> calls use the flags \<open>IGNORECASE | DOTALL\<close> and patterns of one
  shape: a literal label, \<open>\s*\<close>, a lazy group \<open>(.+?)\<close> and a lookahead that holds at
  the end of the text at the latest. \<open>ci_prefix\<close> is the case-insensitive match of a
  literal at the current position.
\<close>

definition ci_prefix :: "string \<Rightarrow> string \<Rightarrow> bool" where
  "ci_prefix lab s = prefix (lower lab) (lower s)"

text \<open>
  \<open>re.search\<close> tries the start positions from left to right. At a position the pattern
  matches exactly when one of the labels stands there and at least one character follows
  it: the lazy group can always run to the end of the text, where \<open>$\<close> holds. The result
  is the text after the label.
\<close>

fun search_label :: "string list \<Rightarrow> string \<Rightarrow> string option" where
  "search_label labs [] = None"
| "search_label labs (c # cs) =
     (case find (\<lambda>l. ci_prefix l (c # cs) \<and> length l < length (c # cs)) labs of
        Some l \<Rightarrow> Some (drop (length l) (c # cs))
      | None \<Rightarrow> search_label labs cs)"

text \<open>
  Greedy \<open>\s*\<close> in front of \<open>(.+?)\<close>: all leading whitespace is skipped; when nothing is
  left for the group, the last whitespace character is given back to it.
\<close>

definition after_spaces :: "string \<Rightarrow> string" where
  "after_spaces rest =
     (let r = dropWhile is_space rest in if r = [] then drop (length rest - 1) rest else r)"

text \<open>\<open>$\<close> without \<open>MULTILINE\<close>: the end of the text, or just before a final newline.\<close>

definition at_end :: "string \<Rightarrow> bool" where
  "at_end s = (s = [] \<or> s = [CHR 0x0A])"

text \<open>
  The lazy group \<open>(.+?)\<close>: at least one character, then as few as possible until the
  lookahead \<open>stop\<close> holds for the remaining text.
\<close>

fun lazy_group :: "(string \<Rightarrow> bool) \<Rightarrow> string \<Rightarrow> string" where
  "lazy_group stop [] = []"
| "lazy_group stop (c # cs) = c # (if stop cs then [] else lazy_group stop cs)"

text \<open>\<open>QUESTION_TITLE:\s*(.+?)(?=---|$)\<close>\<close>

definition title_match :: "string \<Rightarrow> string option" where
  "title_match response =
     map_option (\<lambda>rest. lazy_group (\<lambda>s. prefix ''---'' s \<or> at_end s) (after_spaces rest))
       (search_label [''QUESTION_TITLE:''] response)"

text \<open>\<open>QUESTION_TEXT:\s*(.+?)(?=VERBAL:|EXPLANATION:|$)\<close>\<close>

definition text_match :: "string \<Rightarrow> string option" where
  "text_match response =
     map_option
       (\<lambda>rest. lazy_group
          (\<lambda>s. ci_prefix ''VERBAL:'' s \<or> ci_prefix ''EXPLANATION:'' s \<or> at_end s)
          (after_spaces rest))
       (search_label [''QUESTION_TEXT:''] response)"

text \<open>\<open>(?:VERBAL|EXPLANATION):\s*(.+?)$\<close>\<close>

definition exp_match :: "string \<Rightarrow> string option" where
  "exp_match response =
     map_option (\<lambda>rest. lazy_group at_end (after_spaces rest))
       (search_label [''VERBAL:'', ''EXPLANATION:''] response)"

text \<open>
  The argument is \<open>None\<close> for Python's \<open>None\<close>; \<open>not response\<close> holds for \<open>None\<close> and
  for the empty string.
\<close>

definition parse_question_response :: "string option \<Rightarrow> string \<times> string \<times> string" where
  "parse_question_response response =
     (case response of
        None \<Rightarrow> (''Interview Question'', ''Please solve the problem.'',
                 ''Let me give you a problem to work on.'')
      | Some r \<Rightarrow>
          if r = [] then (''Interview Question'', ''Please solve the problem.'',
                          ''Let me give you a problem to work on.'')
          else
            let question_title =
                  (case title_match r of
                     Some g \<Rightarrow> strip_chars (\<lambda>c. c = CHR 0x27)
                                 (strip_chars (\<lambda>c. c = CHR 0x22) (strip g))
                   | None \<Rightarrow> ''Interview Question'');
                question_text = (case text_match r of Some g \<Rightarrow> strip g | None \<Rightarrow> []);
                explanation = (case exp_match r of Some g \<Rightarrow> strip g | None \<Rightarrow> []);
                fallback = (question_text = [] \<and> explanation = []);
                explanation = (if fallback then r else explanation);
                question_text = (if fallback then r else question_text)
            in (strip (replace ''---'' [] question_title),
                strip (replace ''---'' [] question_text),
                strip (replace ''---'' [] explanation)))"

section \<open>Prompt templates\<close>

text \<open>\<open>str(n)\<close> for a Python integer, as \<open>str.format\<close> and f-strings print it.\<close>

function str_of_nat :: "nat \<Rightarrow> string" where
  "str_of_nat n =
     (if n < 10 then [char_of (48 + n)]
      else str_of_nat (n div 10) @ [char_of (48 + n mod 10)])"
  by pat_completeness auto
termination
  by (relation "measure id") auto

definition str_of_int :: "int \<Rightarrow> string" where
  "str_of_int i = (if i < 0 then ''-'' @ str_of_nat (nat (- i)) else str_of_nat (nat i))"

text \<open>
  The templates of \<open>core/prompt_templates.py\<close>; a template with placeholders is the
  function that \<open>.format\<close> computes from it.
\<close>

definition INTERVIEWER_SYSTEM_PROMPT :: "string" where
  \<open>INTERVIEWER_SYSTEM_PROMPT =
     ''You are Alex, a senior technical interviewer at a FAANG company.\<newline>'' @
     ''You are conducting a realistic mock interview.\<newline>\<newline>'' @
     ''CRITICAL BEHAVIORAL RULES:\<newline>'' @
     ''1. Be PROFESSIONAL and SERIOUS - this is a real interview simulation, not tutoring\<newline>'' @
     ''2. Keep responses SHORT (1-2 sentences max) - interviewers don't ramble\<newline>'' @
     ''3. NEVER give hints unless the candidate explicitly asks for help\<newline>'' @
     ''4. Don't over-explain - let the candidate think and struggle\<newline>'' @
     ''5. Ask clarifying questions like a real interviewer: "What's the time complexity?" or "Have you considered edge cases?"\<newline>'' @
     ''6. If their approach is wrong, just say "Hmm, are you sure about that?" - don't explain why\<newline>'' @
     ''7. Stay neutral - don't be overly encouraging or discouraging\<newline>\<newline>'' @
     ''You understand code in Python, Java, C++, and JavaScript.\<newline>'' @
     ''Evaluate them fairly but make them work for it.''\<close>

definition GREETING_PROMPT :: "string" where
  \<open>GREETING_PROMPT =
     ''Start the interview professionally.\<newline>'' @
     ''Introduce yourself briefly as Alex, the interviewer.\<newline>\<newline>'' @
     ''Say something like:\<newline>'' @
     ''"Hello, I'm Alex and I'll be conducting your technical interview today. What type of problem would you like to work on - coding, system design, or conceptual?"\<newline>'' @
     ''\<newline>Be brief and professional. No small talk. 1-2 sentences maximum.''\<close>

definition QUESTION_PROMPT :: "string \<Rightarrow> string \<Rightarrow> string" where
  \<open>QUESTION_PROMPT interview_type difficulty =
     ''Generate ONE '' @
     interview_type @
     '' interview question at '' @
     difficulty @
     '' difficulty level.\<newline>\<newline>FORMAT YOUR RESPONSE EXACTLY LIKE THIS:\<newline>\<newline>'' @
     ''QUESTION_TITLE: [A short 2-4 word title]\<newline>\<newline>'' @
     ''QUESTION_TEXT: [Complete problem statement with:\<newline>'' @
     ''- Clear problem description\<newline>- Input/output format  \<newline>- 1-2 examples\<newline>'' @
     ''- Constraints]\<newline>\<newline>'' @
     ''VERBAL: [How you present this - be brief and professional. Just state the problem in 1-2 sentences, then say "The problem is in the editor. Let me know when you're ready to discuss your approach." Don't explain or give hints.]\<newline>'' @
     ''\<newline>Generate only ONE question. Be concise.''\<close>

definition FEEDBACK_PROMPT :: "string \<Rightarrow> string \<Rightarrow> string \<Rightarrow> int \<Rightarrow> string" where
  \<open>FEEDBACK_PROMPT question current_code user_speech hints_given =
     ''The candidate is solving a problem.\<newline>\<newline>QUESTION: '' @
     question @
     ''\<newline>\<newline>THEIR CODE:\<newline>```\<newline>'' @
     current_code @
     ''\<newline>```\<newline>\<newline>WHAT THEY SAID: "'' @
     user_speech @
     ''"\<newline>\<newline>HINTS GIVEN: '' @
     str_of_int hints_given @
     ''\<newline>\<newline>'' @
     ''Respond like a REAL interviewer. Your response MUST start with one of these tags:\<newline>'' @
     ''[CORRECT] - if their answer/approach is correct\<newline>'' @
     ''[WRONG] - if their answer is incorrect (then briefly state the correct answer)\<newline>'' @
     ''[UNCLEAR] - if you can't determine or they're still working\<newline>\<newline>'' @
     ''Examples:\<newline>- "[CORRECT] Yes, that's right."\<newline>'' @
     ''- "[WRONG] Actually, the time complexity is O(n log n), not O(n)."\<newline>'' @
     ''- "[UNCLEAR] Okay, continue."\<newline>\<newline>'' @
     ''Keep response to 1-2 sentences after the tag.''\<close>

definition HINT_PROMPT :: "string \<Rightarrow> string \<Rightarrow> int \<Rightarrow> int \<Rightarrow> string" where
  \<open>HINT_PROMPT question current_code hints_given hint_level =
     ''The candidate ASKED for a hint on:\<newline>'' @
     question @
     ''\<newline>\<newline>Their code:\<newline>```\<newline>'' @
     current_code @
     ''\<newline>```\<newline>\<newline>Hints already given: '' @
     str_of_int hints_given @
     ''\<newline>\<newline>Provide hint level '' @
     str_of_int hint_level @
     '' of 3:\<newline>'' @
     ''- Level 1: Just name a data structure or pattern to consider (1 sentence)\<newline>'' @
     ''- Level 2: Give direction on the approach (1-2 sentences)\<newline>'' @
     ''- Level 3: Explain the algorithm logic without code (2-3 sentences)\<newline>\<newline>'' @
     ''Be brief. Don't write code. Make them think.''\<close>

definition FOLLOW_UP_PROMPT :: "string \<Rightarrow> string \<Rightarrow> string" where
  \<open>FOLLOW_UP_PROMPT question current_code =
     ''The candidate finished the problem: '' @
     question @
     ''\<newline>\<newline>Their solution:\<newline>```\<newline>'' @
     current_code @
     ''\<newline>```\<newline>\<newline>'' @
     ''Ask an EDGE CASE follow-up question. Give them a specific edge case and ask how their solution handles it.\<newline>'' @
     ''\<newline>Examples:\<newline>'' @
     ''- "What if the input array is empty? Walk me through what happens."\<newline>'' @
     ''- "What if all elements are the same? Does your solution still work?"\<newline>'' @
     ''- "What about negative numbers? How would that affect your approach?"\<newline>'' @
     ''- "What if the input is null or undefined?"\<newline>\<newline>'' @
     ''Give them the edge case, then ask them to explain or solve for that case.\<newline>'' @
     ''Keep it to 1-2 sentences.''\<close>

definition CLOSING_PROMPT :: "string \<Rightarrow> string \<Rightarrow> string" where
  \<open>CLOSING_PROMPT questions_covered mistakes_summary =
     ''The interview is ending. They worked on: '' @
     questions_covered @
     ''\<newline>\<newline>'' @
     mistakes_summary @
     ''\<newline>\<newline>Provide a closing that includes:\<newline>1. Thank them briefly\<newline>'' @
     ''2. If there were mistakes, list them clearly with corrections\<newline>'' @
     ''3. Give ONE piece of constructive feedback\<newline>\<newline>Example format:\<newline>'' @
     ''"Thanks for your time today. During the interview, you had a few areas to review:\<newline>'' @
     ''- You said X, but the correct answer is Y\<newline>'' @
     ''- For Z question, remember that...\<newline>'' @
     ''Overall, your problem-solving was good. Keep practicing edge cases."\<newline>\<newline>'' @
     ''Keep it professional and helpful.''\<close>
section \<open>\<open>AIEngine\<close>\<close>

text \<open>
  The engine talks to the generative service with \<open>requests.post\<close>. The environment
  decides what the request does: it raises, or it returns a status code and a body.
  The body is \<open>None\<close> when it is not JSON (\<open>response.json()\<close> raises) and the decoded
  value otherwise. A decoded object is an association list with distinct keys; a \<open>JNum\<close>
  stands for any JSON number (false in a condition exactly when it is zero).
\<close>

datatype json =
    JNull
  | JBool bool
  | JNum int
  | JStr string
  | JArr "json list"
  | JObj "(string \<times> json) list"

text \<open>
  The exceptions that can be raised inside \<open>generate_response\<close>; each of them is an
  instance of \<open>Exception\<close>, and only \<open>Timeout\<close> is an instance of
  \<open>requests.exceptions.Timeout\<close>.
\<close>

datatype exn =
    Timeout
  | ConnectionError
  | RequestException
  | JSONDecodeError
  | AttributeError
  | TypeError
  | UnicodeEncodeError

datatype http_outcome = Raises exn | Responds int "json option"

text \<open>
  The environment of the program: \<open>net n\<close> is what the \<open>n\<close>-th request does,
  \<open>error_text n\<close> is \<open>str(e)\<close> for the exception \<open>e\<close> it raises, \<open>body_text n\<close> is the
  \<open>response.text\<close> it returns, \<open>posted\<close> is the log of the message lists sent so far,
  \<open>clock n\<close> is what the \<open>n\<close>-th call of \<open>datetime.now()\<close> returns and \<open>reads\<close> counts
  these calls.
\<close>

record environment =
  net :: "nat \<Rightarrow> http_outcome"
  error_text :: "nat \<Rightarrow> string"
  body_text :: "nat \<Rightarrow> string"
  posted :: "(string \<times> string) list list"
  clock :: "nat \<Rightarrow> int"
  reads :: nat

text \<open>
  The console. The encoding of \<open>sys.stdout\<close> has every ASCII character; \<open>out c\<close> tells
  whether it has the character \<open>c\<close> above ASCII. \<open>print(txt)\<close> raises
  \<open>UnicodeEncodeError\<close> when the encoding lacks a character of \<open>txt\<close>. What is printed
  is not kept.
\<close>

type_synonym console = "char \<Rightarrow> bool"

definition encodable :: "console \<Rightarrow> char \<Rightarrow> bool" where
  "encodable out c = (if out c then True else (of_char c :: nat) < 128)"

definition print_raises :: "console \<Rightarrow> string \<Rightarrow> bool" where
  "print_raises out txt = list_ex (\<lambda>c. \<not> encodable out c) txt"


definition utf8_console :: console where
  "utf8_console = (\<lambda>c. True)"

text \<open>
  \<open>str(e)\<close> for an exception that the interpreter or the JSON decoder raises. The wording
  depends on the value at hand; it is ASCII text, which every console prints.
\<close>

fun message_of :: "exn \<Rightarrow> string" where
  "message_of JSONDecodeError = ''Expecting value: line 1 column 1 (char 0)''"
| "message_of AttributeError = ''object has no attribute get''"
| "message_of TypeError = ''expected string or bytes-like object''"
| "message_of UnicodeEncodeError = ''codec can't encode character''"
| "message_of x = []"

definition raised :: "exn \<Rightarrow> exn \<times> string" where
  "raised x = (x, message_of x)"

text \<open>A message is the pair of its \<open>role\<close> and its \<open>content\<close>.\<close>

record AIEngine =
  conversation_history :: "(string \<times> string) list"

definition reset_conversation :: "AIEngine \<Rightarrow> AIEngine" where
  "reset_conversation e = e\<lparr>conversation_history := []\<rparr>"

text \<open>\<open>_build_messages\<close>; \<open>history[-20:]\<close> is the last 20 entries.\<close>

definition build_messages :: "string \<Rightarrow> string option \<Rightarrow> AIEngine \<Rightarrow> (string \<times> string) list" where
  "build_messages prompt context e =
     (let messages = [(''system'', INTERVIEWER_SYSTEM_PROMPT)];
          history_limit = 20;
          recent_history =
            drop (length (conversation_history e) - history_limit) (conversation_history e);
          messages = messages @ recent_history;
          prompt = (case context of
                      None \<Rightarrow> prompt
                    | Some c \<Rightarrow>
                        if c = [] then prompt
                        else ''Context:\<newline>'' @ c @ ''\<newline>\<newline>'' @ prompt)
      in messages @ [(''user'', prompt)])"

text \<open>\<open>requests.post(...)\<close>: the request is logged and the environment answers.\<close>

definition post :: "(string \<times> string) list \<Rightarrow> environment \<Rightarrow> http_outcome \<times> environment" where
  "post messages w = (net w (length (posted w)), w\<lparr>posted := posted w @ [messages]\<rparr>)"

text \<open>Python's truth value of a decoded JSON value.\<close>

fun truthy :: "json \<Rightarrow> bool" where
  "truthy JNull = False"
| "truthy (JBool b) = b"
| "truthy (JNum n) = (n \<noteq> 0)"
| "truthy (JStr s) = (s \<noteq> [])"
| "truthy (JArr xs) = (xs \<noteq> [])"
| "truthy (JObj kvs) = (kvs \<noteq> [])"

text \<open>\<open>d.get(key, default)\<close>; on a value that is not a dict the attribute lookup fails.\<close>

fun json_get :: "json \<Rightarrow> string \<Rightarrow> json \<Rightarrow> exn + json" where
  "json_get (JObj kvs) key dflt = Inr (case map_of kvs key of Some v \<Rightarrow> v | None \<Rightarrow> dflt)"
| "json_get _ key dflt = Inl AttributeError"

text \<open>
  \<open>re.sub(r'<think>.*?</think>', '', response, flags=re.DOTALL)\<close>: from left to right,
  each \<open><think>\<close> that is followed by a \<open></think>\<close> is removed together with
  everything up to the first such \<open></think>\<close>. The counter is the number of characters
  of the current match still to be removed.
\<close>

fun first_index :: "string \<Rightarrow> string \<Rightarrow> nat option" where
  "first_index sub [] = (if sub = [] then Some 0 else None)"
| "first_index sub (c # cs) =
     (if prefix sub (c # cs) then Some 0 else map_option Suc (first_index sub cs))"

fun sub_think :: "nat \<Rightarrow> string \<Rightarrow> string" where
  "sub_think k [] = []"
| "sub_think k (c # cs) =
     (if 0 < k then sub_think (k - 1) cs
      else if prefix ''<think>'' (c # cs) then
        (case first_index ''</think>'' (drop 7 (c # cs)) of
           Some j \<Rightarrow> sub_think (7 + j + 8 - 1) cs
         | None \<Rightarrow> c # sub_think 0 cs)
      else c # sub_think 0 cs)"

text \<open>
  \<open>s.split(sep)\<close> for a non-empty separator; \<open>cur\<close> is the part being collected and the
  counter the number of separator characters still to be skipped.
\<close>

fun split_sep :: "nat \<Rightarrow> string \<Rightarrow> string \<Rightarrow> string \<Rightarrow> string list" where
  "split_sep k sep cur [] = [cur]"
| "split_sep k sep cur (c # cs) =
     (if 0 < k then split_sep (k - 1) sep cur cs
      else if prefix sep (c # cs) then cur # split_sep (length sep - 1) sep [] cs
      else split_sep 0 sep (cur @ [c]) cs)"

text \<open>
  \<open>_clean_response\<close>. The argument is whatever \<open>content\<close> holds; a value that is
  neither false nor a string makes \<open>re.sub\<close> raise \<open>TypeError\<close>.
\<close>

definition clean_response :: "json \<Rightarrow> exn + string" where
  "clean_response response =
     (if \<not> truthy response then Inr []
      else case response of
        JStr s \<Rightarrow>
          let cleaned = sub_think 0 s;
              cleaned =
                (if contains ''</think>'' s then
                   (let parts = split_sep 0 ''</think>'' [] s
                    in if length parts > 1 then last parts else cleaned)
                 else cleaned)
          in Inr (strip cleaned)
      | _ \<Rightarrow> Inl TypeError)"

text \<open>
  The body of the \<open>try\<close> block of \<open>generate_response\<close>, with its prints: \<open>Inl\<close> is a
  raised exception with its \<open>str\<close>, \<open>Inr\<close> the returned text; the engine and the
  environment are returned as the block left them.
\<close>

definition generate_try ::
  "console \<Rightarrow> string \<Rightarrow> (string \<times> string) list \<Rightarrow> AIEngine \<Rightarrow> environment
     \<Rightarrow> ((exn \<times> string) + string) \<times> AIEngine \<times> environment" where
  "generate_try out prompt messages e w =
     (case post messages w of
        (Raises x, w') \<Rightarrow> (Inl (x, error_text w (length (posted w))), e, w')
      | (Responds status_code body, w') \<Rightarrow>
          if print_raises out (''[AI] Response status: '' @ str_of_int status_code)
          then (Inl (raised UnicodeEncodeError), e, w')
          else if status_code = 200 then
            (case body of
               None \<Rightarrow> (Inl (raised JSONDecodeError), e, w')
             | Some result \<Rightarrow>
                 (case json_get result ''message'' (JObj []) of
                    Inl x \<Rightarrow> (Inl (raised x), e, w')
                  | Inr message \<Rightarrow>
                      (case json_get message ''content'' (JStr []) of
                         Inl x \<Rightarrow> (Inl (raised x), e, w')
                       | Inr content \<Rightarrow>
                           (case clean_response content of
                              Inl x \<Rightarrow> (Inl (raised x), e, w')
                            | Inr assistant_message \<Rightarrow>
                                if print_raises out
                                     (''[AI] Got response: '' @
                                      (if assistant_message \<noteq> [] then take 100 assistant_message
                                       else ''EMPTY'') @ ''...'')
                                then (Inl (raised UnicodeEncodeError), e, w')
                                else
                                  let e' = e\<lparr>conversation_history :=
                                              conversation_history e @
                                              [(''user'', prompt),
                                               (''assistant'', assistant_message)]\<rparr>
                                  in (Inr (if assistant_message \<noteq> [] then assistant_message
                                           else ''I'm here to help! Please go ahead.''),
                                      e', w')))))
          else if print_raises out (''[AI] Error response: '' @ body_text w (length (posted w)))
          then (Inl (raised UnicodeEncodeError), e, w')
          else (Inr ''I apologize, I'm having some trouble. Let me try again.'', e, w'))"

text \<open>
  \<open>generate_response\<close> on the console \<open>out\<close>: the print of the prompt in front of the
  \<open>try\<close> block, the block, and the two \<open>except\<close> clauses in the order of the source,
  each with its print. The result is \<open>Inl\<close> for an exception that leaves the method: one
  raised in front of the block or inside a handler.
\<close>

definition generate_response ::
  "console \<Rightarrow> string \<Rightarrow> string option \<Rightarrow> AIEngine \<Rightarrow> environment
     \<Rightarrow> (exn + string) \<times> AIEngine \<times> environment" where
  "generate_response out prompt context e w =
     (let messages = build_messages prompt context e
      in if print_raises out
              (''[AI] Generating response for prompt: '' @ take 80 prompt @ ''...'')
         then (Inl UnicodeEncodeError, e, w)
         else
           case generate_try out prompt messages e w of
             (Inr r, e', w') \<Rightarrow> (Inr r, e', w')
           | (Inl (x, msg), e', w') \<Rightarrow>
               if x = Timeout then
                 (if print_raises out ''[AI] Request timed out''
                  then (Inl UnicodeEncodeError, e', w')
                  else (Inr ''I need a moment to think about that...'', e', w'))
               else
                 (if print_raises out (''[AI] Error: '' @ msg)
                  then (Inl UnicodeEncodeError, e', w')
                  else (Inr ''I apologize for the technical issue. Please continue.'',
                        e', w')))"

section \<open>\<open>InterviewStateMachine\<close>\<close>

datatype InterviewState =
    IDLE
  | GREETING
  | TOPIC_SELECTION
  | QUESTION_PRESENTING
  | CANDIDATE_SOLVING
  | GIVING_HINT
  | FOLLOW_UP
  | CLOSING
  | ENDED

text \<open>A mistake is the dict with the keys \<open>question\<close>, \<open>wrong_answer\<close>, \<open>correction\<close>.\<close>

record mistake =
  question :: string
  wrong_answer :: string
  correction :: string

text \<open>
  A transcript entry; \<open>timestamp\<close> is the clock reading whose \<open>isoformat()\<close> the source
  stores.
\<close>

record transcript_entry =
  speaker :: string
  spoken :: string
  timestamp :: int

record InterviewContext =
  interview_type :: string
  difficulty :: string
  current_question :: string
  current_code :: string
  hints_given :: int
  questions_asked :: "string list"
  start_time :: "int option"
  end_time :: "int option"
  transcript :: "transcript_entry list"
  follow_up_attempts :: int
  max_retries :: int
  last_question_type :: string
  mistakes :: "mistake list"

text \<open>\<open>InterviewContext()\<close> with the defaults of the dataclass.\<close>

definition new_context :: InterviewContext where
  "new_context =
     \<lparr>interview_type = [], difficulty = ''medium'', current_question = [],
      current_code = [], hints_given = 0, questions_asked = [], start_time = None,
      end_time = None, transcript = [], follow_up_attempts = 0, max_retries = 5,
      last_question_type = [], mistakes = []\<rparr>"

text \<open>
  The state machine together with the environment it runs in. \<open>ctx\<close> is the attribute
  \<open>context\<close>. \<open>phases\<close> is a history variable: the values assigned to \<open>self.state\<close>, in
  order. The three UI callbacks are sinks whose effect never reaches the state machine
  again; they and the question bank, which no method reads, are left out.
\<close>

record machine =
  state :: InterviewState
  ctx :: InterviewContext
  ai_engine :: AIEngine
  env :: environment
  phases :: "InterviewState list"

text \<open>\<open>InterviewStateMachine(ai_engine)\<close> in the environment \<open>w\<close>.\<close>

definition new_machine :: "environment \<Rightarrow> machine" where
  "new_machine w =
     \<lparr>state = IDLE, ctx = new_context, ai_engine = \<lparr>conversation_history = []\<rparr>,
      env = w, phases = []\<rparr>"

text \<open>\<open>self.state = s\<close>\<close>

definition set_state :: "InterviewState \<Rightarrow> machine \<Rightarrow> machine" where
  "set_state s m = m\<lparr>state := s, phases := phases m @ [s]\<rparr>"

text \<open>\<open>datetime.now()\<close>\<close>

definition now :: "machine \<Rightarrow> int \<times> machine" where
  "now m =
     (clock (env m) (reads (env m)), m\<lparr>env := (env m)\<lparr>reads := Suc (reads (env m))\<rparr>\<rparr>)"

text \<open>\<open>_add_to_transcript\<close>\<close>

definition add_to_transcript :: "string \<Rightarrow> string \<Rightarrow> machine \<Rightarrow> machine" where
  "add_to_transcript who txt m =
     (let (t, m) = now m
      in m\<lparr>ctx := (ctx m)\<lparr>transcript :=
            transcript (ctx m) @ [\<lparr>speaker = who, spoken = txt, timestamp = t\<rparr>]\<rparr>\<rparr>)"

text \<open>
  \<open>self.ai_engine.generate_response(prompt)\<close>. The state machine is modelled on a
  console whose encoding has every character, its own prints being left out. On that
  console \<open>generate_response\<close> returns a text on every path, and the text is taken from
  it; no caller has a handler.
\<close>

definition ai_generate :: "string \<Rightarrow> machine \<Rightarrow> string \<times> machine" where
  "ai_generate prompt m =
     (case generate_response utf8_console prompt None (ai_engine m) (env m) of
        (r, e, w) \<Rightarrow> ((case r of Inr s \<Rightarrow> s | Inl x \<Rightarrow> []), m\<lparr>ai_engine := e, env := w\<rparr>))"

text \<open>\<open>start_interview\<close>\<close>

definition start_interview :: "machine \<Rightarrow> string \<times> machine" where
  "start_interview m =
     (let m = set_state GREETING m;
          m = m\<lparr>ctx := new_context\<rparr>;
          (t, m) = now m;
          m = m\<lparr>ctx := (ctx m)\<lparr>start_time := Some t\<rparr>\<rparr>;
          m = m\<lparr>ai_engine := reset_conversation (ai_engine m)\<rparr>;
          (response, m) = ai_generate GREETING_PROMPT m;
          m = add_to_transcript ''AI'' response m
      in (response, m))"

text \<open>\<open>_present_question\<close>\<close>

definition present_question :: "machine \<Rightarrow> string \<times> machine" where
  "present_question m =
     (let m = set_state QUESTION_PRESENTING m;
          prompt = QUESTION_PROMPT (interview_type (ctx m)) (difficulty (ctx m));
          (response, m) = ai_generate prompt m;
          (question_title, question_text, explanation) =
            parse_question_response (Some response);
          m = m\<lparr>ctx := (ctx m)\<lparr>current_question := question_text\<rparr>\<rparr>;
          m = m\<lparr>ctx := (ctx m)\<lparr>questions_asked :=
                 questions_asked (ctx m) @ [question_title]\<rparr>\<rparr>;
          m = m\<lparr>ctx := (ctx m)\<lparr>hints_given := 0\<rparr>\<rparr>;
          explanation =
            (if explanation = [] then
               ''Alright, I've written the question in the editor. Take a look at the problem and walk me through your approach before you start coding.''
             else explanation);
          m = add_to_transcript ''AI'' explanation m;
          m = set_state CANDIDATE_SOLVING m
      in (explanation, m))"

text \<open>\<open>_handle_greeting_response\<close> and \<open>_handle_topic_selection\<close>\<close>

definition handle_greeting_response :: "string \<Rightarrow> machine \<Rightarrow> string \<times> machine" where
  "handle_greeting_response user_input m =
     (let user_lower = lower user_input;
          ty =
            (if contains ''dsa'' user_lower \<or> contains ''data structure'' user_lower \<or>
                contains ''algorithm'' user_lower \<or> contains ''coding'' user_lower
             then ''DSA''
             else if contains ''system'' user_lower \<or> contains ''design'' user_lower
             then ''System Design''
             else if contains ''dbms'' user_lower \<or> contains ''database'' user_lower \<or>
                     contains ''sql'' user_lower
             then ''DBMS''
             else if contains ''os'' user_lower \<or> contains ''operating'' user_lower
             then ''Operating Systems''
             else ''DSA'');
          m = m\<lparr>ctx := (ctx m)\<lparr>interview_type := ty\<rparr>\<rparr>
      in present_question m)"

definition handle_topic_selection :: "string \<Rightarrow> machine \<Rightarrow> string \<times> machine" where
  "handle_topic_selection user_input m = present_question m"

text \<open>\<open>end_interview\<close>; \<open>enumerate(mistakes, 1)\<close> numbers the mistakes from \<open>i\<close> on.\<close>

fun mistakes_lines :: "int \<Rightarrow> mistake list \<Rightarrow> string" where
  "mistakes_lines i [] = []"
| "mistakes_lines i (x # xs) =
     str_of_int i @ ''. They said: '' @ [CHR 0x22] @ take 50 (wrong_answer x) @ ''...'' @
     [CHR 0x22, CHR 0x0A] @
     ''   Correction: '' @ take 100 (correction x) @ [CHR 0x0A] @
     mistakes_lines (i + 1) xs"

text \<open>\<open>", ".join(xs)\<close>\<close>

fun join_comma :: "string list \<Rightarrow> string" where
  "join_comma [] = []"
| "join_comma [x] = x"
| "join_comma (x # y # ys) = x @ '', '' @ join_comma (y # ys)"

definition end_interview :: "machine \<Rightarrow> string \<times> machine" where
  "end_interview m =
     (let m = set_state CLOSING m;
          (t, m) = now m;
          m = m\<lparr>ctx := (ctx m)\<lparr>end_time := Some t\<rparr>\<rparr>;
          mistakes_summary =
            (if mistakes (ctx m) \<noteq> [] then
               ''MISTAKES MADE DURING INTERVIEW:\<newline>'' @ mistakes_lines 1 (mistakes (ctx m))
             else ''No major mistakes recorded during this interview.'');
          prompt = CLOSING_PROMPT (join_comma (questions_asked (ctx m))) mistakes_summary;
          (response, m) = ai_generate prompt m;
          m = add_to_transcript ''AI'' response m;
          m = set_state ENDED m
      in (response, m))"

text \<open>\<open>_give_hint\<close>\<close>

definition give_hint :: "machine \<Rightarrow> string \<times> machine" where
  "give_hint m =
     (let m = set_state GIVING_HINT m;
          m = m\<lparr>ctx := (ctx m)\<lparr>hints_given := hints_given (ctx m) + 1\<rparr>\<rparr>;
          hint_level = min (hints_given (ctx m)) 3;
          prompt = HINT_PROMPT (current_question (ctx m)) (current_code (ctx m))
                     (hints_given (ctx m) - 1) hint_level;
          (response, m) = ai_generate prompt m;
          m = add_to_transcript ''AI'' response m;
          m = set_state CANDIDATE_SOLVING m
      in (response, m))"

text \<open>\<open>_ask_follow_up\<close>\<close>

definition ask_follow_up :: "machine \<Rightarrow> string \<times> machine" where
  "ask_follow_up m =
     (let m = set_state FOLLOW_UP m;
          prompt = FOLLOW_UP_PROMPT (current_question (ctx m)) (current_code (ctx m));
          (response, m) = ai_generate prompt m;
          m = add_to_transcript ''AI'' response m
      in (response, m))"

text \<open>\<open>_move_on_or_conclude\<close>; \<open>recent_mistakes[-2:]\<close> is the last two entries.\<close>

definition move_on_or_conclude :: "machine \<Rightarrow> string \<times> machine" where
  "move_on_or_conclude m =
     (let recent_mistakes =
            filter (\<lambda>x. contains (take 50 (current_question (ctx m))) (question x))
              (mistakes (ctx m));
          feedback =
            (if mistakes (ctx m) \<noteq> [] \<and> recent_mistakes \<noteq> [] then
               ''Before we move on, let me give you some feedback. '' @
               concat (map (\<lambda>x. correction x @ '' '')
                         (drop (length recent_mistakes - 2) recent_mistakes)) @
               [CHR 0x0A, CHR 0x0A]
             else [])
      in if length (questions_asked (ctx m)) < 2 then
           (let (next_question, m) = present_question m
            in (feedback @ ''Let's move on to the next problem. '' @ next_question, m))
         else
           (let (closing, m) = end_interview m
            in (feedback @ closing, m)))"

text \<open>\<open>_handle_solving_response\<close>\<close>

definition display_tags :: "string list" where
  "display_tags =
     [''[CORRECT]'', ''[WRONG]'', ''[UNCLEAR]'', ''[correct]'', ''[wrong]'', ''[unclear]'']"

definition handle_solving_response :: "string \<Rightarrow> machine \<Rightarrow> string \<times> machine" where
  "handle_solving_response user_input m =
     (if is_garbage_input user_input then (''I didn't catch that. Could you repeat?'', m)
      else if is_asking_for_hint user_input then
        give_hint (m\<lparr>ctx := (ctx m)\<lparr>follow_up_attempts := 0\<rparr>\<rparr>)
      else if seems_finished user_input then
        ask_follow_up (m\<lparr>ctx := (ctx m)\<lparr>follow_up_attempts := 0\<rparr>\<rparr>)
      else
        let m = m\<lparr>ctx := (ctx m)\<lparr>follow_up_attempts := follow_up_attempts (ctx m) + 1\<rparr>\<rparr>
        in if follow_up_attempts (ctx m) \<ge> max_retries (ctx m) then
             move_on_or_conclude (m\<lparr>ctx := (ctx m)\<lparr>follow_up_attempts := 0\<rparr>\<rparr>)
           else
             let prompt = FEEDBACK_PROMPT (current_question (ctx m)) (current_code (ctx m))
                            user_input (hints_given (ctx m));
                 (response, m) = ai_generate prompt m;
                 response = (if response = [] then ''[UNCLEAR] Okay, continue.'' else response);
                 m = (if contains ''[WRONG]'' (upper response) then
                        m\<lparr>ctx := (ctx m)\<lparr>mistakes := mistakes (ctx m) @
                          [\<lparr>question = take 100 (current_question (ctx m)),
                            wrong_answer = user_input,
                            correction =
                              strip (replace ''[wrong]'' [] (replace ''[WRONG]'' [] response))\<rparr>]\<rparr>\<rparr>
                      else m);
                 display_response = foldl (\<lambda>d tag. strip (replace tag [] d)) response display_tags;
                 m = add_to_transcript ''AI'' display_response m
             in (display_response, m))"

text \<open>\<open>_handle_post_hint\<close>\<close>

definition handle_post_hint :: "string \<Rightarrow> machine \<Rightarrow> string \<times> machine" where
  "handle_post_hint user_input m =
     handle_solving_response user_input (set_state CANDIDATE_SOLVING m)"

text \<open>\<open>_handle_follow_up_response\<close>, with the f-string that builds its prompt.\<close>

definition follow_up_feedback_prompt :: "string \<Rightarrow> string \<Rightarrow> string \<Rightarrow> string" where
  \<open>follow_up_feedback_prompt q code_text user_input =
     ''The candidate was asked a follow-up question after solving:\<newline>'' @ q @
     ''\<newline>\<newline>Their code:\<newline>```\<newline>'' @ code_text @ ''\<newline>```\<newline>\<newline>'' @
     ''Their follow-up response: "'' @ user_input @ ''"\<newline>\<newline>'' @
     ''Provide brief feedback (1-2 sentences). If this was a good answer, acknowledge it.\<newline>'' @
     ''Then either ask another follow-up or transition to ending the interview.''\<close>

definition handle_follow_up_response :: "string \<Rightarrow> machine \<Rightarrow> string \<times> machine" where
  "handle_follow_up_response user_input m =
     (let prompt = follow_up_feedback_prompt (current_question (ctx m)) (current_code (ctx m))
                     user_input;
          (response, m) = ai_generate prompt m;
          m = add_to_transcript ''AI'' response m
      in if length (questions_asked (ctx m)) \<ge> 2 then end_interview m
         else (response, m))"

text \<open>\<open>_generate_contextual_response\<close>\<close>

definition generate_contextual_response :: "string \<Rightarrow> machine \<Rightarrow> string \<times> machine" where
  "generate_contextual_response user_input m =
     (let (response, m) = ai_generate user_input m;
          m = add_to_transcript ''AI'' response m
      in (response, m))"

text \<open>\<open>process_user_input\<close>\<close>

definition process_user_input :: "string \<Rightarrow> string \<Rightarrow> machine \<Rightarrow> string \<times> machine" where
  "process_user_input user_input code_text m =
     (let m = add_to_transcript ''User'' user_input m;
          m = m\<lparr>ctx := (ctx m)\<lparr>current_code := code_text\<rparr>\<rparr>
      in if state m = GREETING then handle_greeting_response user_input m
         else if state m = TOPIC_SELECTION then handle_topic_selection user_input m
         else if state m = CANDIDATE_SOLVING then handle_solving_response user_input m
         else if state m = FOLLOW_UP then handle_follow_up_response user_input m
         else if state m = GIVING_HINT then handle_post_hint user_input m
         else generate_contextual_response user_input m)"

text \<open>\<open>request_hint\<close>\<close>

definition request_hint :: "machine \<Rightarrow> string \<times> machine" where
  "request_hint m =
     (if state m = CANDIDATE_SOLVING then give_hint m
      else (''Hints are available while solving a problem.'', m))"




section \<open>\<open>InterviewWorker\<close>\<close>

text \<open>A task is the dict that \<open>queue_action\<close> appends to \<open>task_queue\<close>.\<close>

record task =
  action :: string
  user_input :: string
  code :: string

text \<open>The Qt signals of the worker, with their arguments.\<close>

datatype signal =
    response_ready string
  | speaking_started
  | speaking_finished
  | error_occurred string
  | task_complete

text \<open>
  \<open>_process_task\<close>: the dispatch on \<open>action\<close> and the signals emitted for the response.
  \<open>tts\<close> tells whether \<open>tts_engine\<close> is set; what the speech engine does is outside the
  model, and an exception it raises is caught on the spot. No entry point of the state
  machine as modelled raises, so the outer handler and \<open>error_occurred\<close> are not reached.
\<close>

definition process_task :: "bool \<Rightarrow> task \<Rightarrow> machine \<Rightarrow> signal list \<times> machine" where
  "process_task tts t m =
     (let (response, m) =
            (if action t = ''start'' then start_interview m
             else if action t = ''process'' then process_user_input (user_input t) (code t) m
             else if action t = ''hint'' then request_hint m
             else if action t = ''end'' then end_interview m
             else ([], m))
      in ((if response \<noteq> [] then
             response_ready response #
             (if tts then [speaking_started, speaking_finished] else [])
           else []),
          m))"

text \<open>The state machine after the worker has processed the tasks \<open>ts\<close> one after the other.\<close>

fun run_tasks :: "bool \<Rightarrow> task list \<Rightarrow> machine \<Rightarrow> machine" where
  "run_tasks tts [] m = m"
| "run_tasks tts (t # ts) m = run_tasks tts ts (snd (process_task tts t m))"

text \<open>
  The worker thread and the threads that call \<open>queue_action\<close> and \<open>stop\<close>. \<open>position\<close>
  is where the worker thread stands in \<open>run\<close>: at the loop test, after \<open>pop(0)\<close>, in front
  of \<open>_process_task\<close> with the busy flag set, in front of clearing the flag, in front of
  emitting \<open>task_complete\<close>, or behind the loop.
\<close>

datatype position =
    at_loop
  | popped task
  | dispatching task
  | clearing
  | signalling
  | stopped

text \<open>
  \<open>emitted\<close> is the sequence of signals emitted so far. \<open>queued\<close> and \<open>dispatched\<close> are
  history variables: the tasks passed to \<open>queue_action\<close> and to \<open>_process_task\<close>, in order.
\<close>

record worker =
  interview_state :: machine
  tts_engine :: bool
  task_queue :: "task list"
  running :: bool
  is_busy :: bool
  pos :: position
  emitted :: "signal list"
  queued :: "task list"
  dispatched :: "task list"

text \<open>\<open>InterviewWorker(interview_state, tts_engine)\<close>, started.\<close>

definition new_worker :: "machine \<Rightarrow> bool \<Rightarrow> worker" where
  "new_worker m tts =
     \<lparr>interview_state = m, tts_engine = tts, task_queue = [], running = True,
      is_busy = False, pos = at_loop, emitted = [], queued = [], dispatched = []\<rparr>"

text \<open>\<open>queue_action\<close> and \<open>stop\<close>, called from other threads.\<close>

definition queue_action :: "task \<Rightarrow> worker \<Rightarrow> worker" where
  "queue_action t s = s\<lparr>task_queue := task_queue s @ [t], queued := queued s @ [t]\<rparr>"

definition stop :: "worker \<Rightarrow> worker" where
  "stop s = s\<lparr>running := False\<rparr>"

text \<open>
  One step of the worker thread in \<open>run\<close>. At the loop test with nothing to do the thread
  sleeps and comes back to the test. \<open>_process_task\<close> is one step.
\<close>

definition run_step :: "worker \<Rightarrow> worker" where
  "run_step s =
     (case pos s of
        at_loop \<Rightarrow>
          if running s then
            (if task_queue s \<noteq> [] \<and> \<not> is_busy s
             then s\<lparr>task_queue := tl (task_queue s), pos := popped (hd (task_queue s))\<rparr>
             else s)
          else s\<lparr>pos := stopped\<rparr>
      | popped t \<Rightarrow> s\<lparr>is_busy := True, pos := dispatching t\<rparr>
      | dispatching t \<Rightarrow>
          (let (sigs, m) = process_task (tts_engine s) t (interview_state s)
           in s\<lparr>interview_state := m, emitted := emitted s @ sigs,
                dispatched := dispatched s @ [t], pos := clearing\<rparr>)
      | clearing \<Rightarrow> s\<lparr>is_busy := False, pos := signalling\<rparr>
      | signalling \<Rightarrow> s\<lparr>emitted := emitted s @ [task_complete], pos := at_loop\<rparr>
      | stopped \<Rightarrow> s)"

text \<open>The interleavings of the worker thread with the calling threads.\<close>

inductive step :: "worker \<Rightarrow> worker \<Rightarrow> bool" where
  consumer: "step s (run_step s)"
| producer: "step s (queue_action t s)"
| stopper: "step s (stop s)"

inductive reachable :: "worker \<Rightarrow> bool" where
  init: "reachable (new_worker m tts)"
| next_step: "reachable s \<Longrightarrow> step s s' \<Longrightarrow> reachable s'"

text \<open>The task the worker thread holds between \<open>pop(0)\<close> and \<open>_process_task\<close>.\<close>

definition in_hand :: "worker \<Rightarrow> task list" where
  "in_hand s = (case pos s of popped t \<Rightarrow> [t] | dispatching t \<Rightarrow> [t] | _ \<Rightarrow> [])"

text \<open>
  The signals of processing the tasks \<open>ts\<close> one after the other, each followed by
  \<open>task_complete\<close>.
\<close>

fun run_signals :: "bool \<Rightarrow> task list \<Rightarrow> machine \<Rightarrow> signal list" where
  "run_signals tts [] m = []"
| "run_signals tts (t # ts) m =
     fst (process_task tts t m) @ [task_complete] @
     run_signals tts ts (snd (process_task tts t m))"

section \<open>Concrete environments and machines\<close>

text \<open>
  The environment in which every request has the outcome \<open>r\<close> and the clock shows the
  number of earlier readings.
\<close>

definition env0 :: "http_outcome \<Rightarrow> environment" where
  "env0 r =
     \<lparr>net = (\<lambda>n. r), error_text = (\<lambda>n. ''request failed''), body_text = (\<lambda>n. []),
      posted = [], clock = (\<lambda>n. int n), reads = 0\<rparr>"


text \<open>The environment in which every request is answered with status 200 and \<open>content\<close>.\<close>

definition reply_env :: "string \<Rightarrow> environment" where
  "reply_env content =
     env0 (Responds 200
       (Some (JObj [(''message'',
                     JObj [(''role'', JStr ''assistant''), (''content'', JStr content)])])))"

text \<open>
  A machine in \<open>CANDIDATE_SOLVING\<close> on its first question, with \<open>k\<close> follow-up attempts
  counted so far.
\<close>

definition solving_machine :: "int \<Rightarrow> environment \<Rightarrow> machine" where
  "solving_machine k w =
     \<lparr>state = CANDIDATE_SOLVING,
      ctx = new_context
        \<lparr>interview_type := ''DSA'',
         current_question := ''Return the indices of two numbers that add up to the target.'',
         questions_asked := [''Two Sum''],
         start_time := Some 0,
         follow_up_attempts := k\<rparr>,
      ai_engine = \<lparr>conversation_history = []\<rparr>,
      env = w,
      phases = [GREETING, QUESTION_PRESENTING, CANDIDATE_SOLVING]\<rparr>"

section \<open>What an entry point other than \<open>start_interview\<close> leaves alone\<close>

text \<open>
  \<open>evolves m m'\<close>: the transcript, the questions asked, the mistakes, the phase history and
  the request log of \<open>m'\<close> extend those of \<open>m\<close>; the code snapshot, the start time, the
  retry limit and the environment's answers are the same; the clock has been read at
  least as often; and the end time is the old one or one of the new clock readings.
\<close>

definition evolves :: "machine \<Rightarrow> machine \<Rightarrow> bool" where
  "evolves m m' \<longleftrightarrow>
     prefix (transcript (ctx m)) (transcript (ctx m')) \<and>
     prefix (questions_asked (ctx m)) (questions_asked (ctx m')) \<and>
     prefix (mistakes (ctx m)) (mistakes (ctx m')) \<and>
     prefix (phases m) (phases m') \<and>
     prefix (posted (env m)) (posted (env m')) \<and>
     current_code (ctx m') = current_code (ctx m) \<and>
     start_time (ctx m') = start_time (ctx m) \<and>
     max_retries (ctx m') = max_retries (ctx m) \<and>
     net (env m') = net (env m) \<and>
     clock (env m') = clock (env m) \<and>
     reads (env m) \<le> reads (env m') \<and>
     (end_time (ctx m') = end_time (ctx m) \<or>
      (\<exists>j. reads (env m) \<le> j \<and> j < reads (env m') \<and>
           end_time (ctx m') = Some (clock (env m) j)))"

text \<open>A machine in \<open>FOLLOW_UP\<close> on its first question.\<close>

definition follow_up_machine :: "environment \<Rightarrow> machine" where
  "follow_up_machine w = (solving_machine 0 w)\<lparr>state := FOLLOW_UP\<rparr>"

text \<open>A machine in \<open>CANDIDATE_SOLVING\<close> on its second question.\<close>

definition second_question_machine :: "environment \<Rightarrow> machine" where
  "second_question_machine w =
     (solving_machine 0 w)\<lparr>ctx := (ctx (solving_machine 0 w))
        \<lparr>questions_asked := [''Two Sum'', ''Valid Parentheses'']\<rparr>\<rparr>"

section \<open>Invariants of a session\<close>

text \<open>
  \<open>capped m\<close>: at most two questions have been asked, none yet while the greeting is
  awaited, and the phase is not \<open>TOPIC_SELECTION\<close>, which no method assigns.
\<close>

definition capped :: "machine \<Rightarrow> bool" where
  "capped m \<longleftrightarrow>
     length (questions_asked (ctx m)) \<le> 2 \<and>
     (state m = GREETING \<longrightarrow> questions_asked (ctx m) = []) \<and>
     state m \<noteq> TOPIC_SELECTION"

text \<open>
  \<open>timed clk m\<close>: the clock of the environment is \<open>clk\<close>, the start time is one of its
  readings so far, and an end time, when set, is a reading taken no earlier.
\<close>

definition timed :: "(nat \<Rightarrow> int) \<Rightarrow> machine \<Rightarrow> bool" where
  "timed clk m \<longleftrightarrow>
     clock (env m) = clk \<and>
     (\<exists>i < reads (env m). start_time (ctx m) = Some (clk i) \<and>
        (\<forall>e. end_time (ctx m) = Some e \<longrightarrow>
           (\<exists>j < reads (env m). i \<le> j \<and> e = clk j)))"

text \<open>The tasks that the buttons of the main window queue.\<close>

definition start_task :: task where
  "start_task = \<lparr>action = ''start'', user_input = [], code = []\<rparr>"

definition end_task :: task where
  "end_task = \<lparr>action = ''end'', user_input = [], code = []\<rparr>"


text \<open>
  \<open>worker_inv s\<close>: the busy flag is set exactly while the worker thread stands between
  setting and clearing it, and the tasks dispatched, the task in hand and the tasks still
  queued are, in this order, the tasks queued so far.
\<close>

definition worker_inv :: "worker \<Rightarrow> bool" where
  "worker_inv s \<longleftrightarrow>
     (is_busy s \<longleftrightarrow> (\<exists>t. pos s = dispatching t) \<or> pos s = clearing) \<and>
     dispatched s @ in_hand s @ task_queue s = queued s"

text \<open>A started worker on a new machine, with a start task and an end task queued.\<close>

definition two_task_worker :: worker where
  "two_task_worker =
     queue_action end_task
       (queue_action start_task (new_worker (new_machine (env0 (Raises Timeout))) True))"

section \<open>Facts about \<open>generate_response\<close>\<close>

lemma print_raises_utf8: "print_raises utf8_console txt = False"
  by (simp add: print_raises_def encodable_def utf8_console_def list_ex_iff)

lemma generate_try_env:
  "snd (snd (generate_try out p ms e w)) = w\<lparr>posted := posted w @ [ms]\<rparr>"
  by (simp add: generate_try_def post_def Let_def
      split: http_outcome.splits option.splits sum.splits)

text \<open>On a console that has every character the method returns on every path.\<close>

lemma generate_response_cases:
  "fst (generate_response utf8_console p c e w) =
     (case fst (generate_try utf8_console p (build_messages p c e) e w) of
        Inr r \<Rightarrow> Inr r
      | Inl (x, msg) \<Rightarrow>
          if x = Timeout then Inr ''I need a moment to think about that...''
          else Inr ''I apologize for the technical issue. Please continue.'')"
  by (simp add: generate_response_def Let_def print_raises_utf8
      split: prod.splits sum.splits)

lemma generate_try_raises:
  "net w (length (posted w)) = Raises x \<Longrightarrow>
   fst (generate_try out p ms e w) = Inl (x, error_text w (length (posted w)))"
  by (simp add: generate_try_def post_def)

lemma generate_try_status:
  "net w (length (posted w)) = Responds status body \<Longrightarrow> status \<noteq> 200 \<Longrightarrow>
   fst (generate_try utf8_console p ms e w) =
     Inr ''I apologize, I'm having some trouble. Let me try again.''"
  by (simp add: generate_try_def post_def print_raises_utf8)

lemma generate_response_returns:
  "\<exists>s. fst (generate_response utf8_console p c e w) = Inr s"
  by (simp add: generate_response_cases split: sum.splits prod.splits)

lemma generate_response_env:
  "snd (snd (generate_response utf8_console p c e w)) =
     w\<lparr>posted := posted w @ [build_messages p c e]\<rparr>"
proof -
  obtain r e' w' where g: "generate_try utf8_console p (build_messages p c e) e w = (r, e', w')"
    by (cases "generate_try utf8_console p (build_messages p c e) e w") auto
  with generate_try_env[of utf8_console p "build_messages p c e" e w]
  have "w' = w\<lparr>posted := posted w @ [build_messages p c e]\<rparr>" by simp
  with g show ?thesis
    by (cases r)
       (simp_all add: generate_response_def Let_def print_raises_utf8 split: prod.splits)
qed

text \<open>
  The text that the state machine takes from \<open>generate_response\<close> is the text it
  returns.
\<close>

lemma ai_generate_returns:
  "fst (generate_response utf8_console p None (ai_engine m) (env m)) =
     Inr (fst (ai_generate p m))"
proof -
  obtain s where "fst (generate_response utf8_console p None (ai_engine m) (env m)) = Inr s"
    using generate_response_returns by blast
  then show ?thesis
    by (cases "generate_response utf8_console p None (ai_engine m) (env m)")
       (simp add: ai_generate_def)
qed

text \<open>
  On such a console every failure of the request ends in a literal: the one of the first
  handler for a timeout, the one of the second handler for any other exception, the one of
  the \<open>else\<close> branch for a status other than 200.
\<close>

lemma generate_response_fallbacks:
  "net w (length (posted w)) = Raises Timeout \<Longrightarrow>
     fst (generate_response utf8_console p c e w) =
       Inr ''I need a moment to think about that...''"
  "net w (length (posted w)) = Raises x \<Longrightarrow> x \<noteq> Timeout \<Longrightarrow>
     fst (generate_response utf8_console p c e w) =
       Inr ''I apologize for the technical issue. Please continue.''"
  "net w (length (posted w)) = Responds status body \<Longrightarrow> status \<noteq> 200 \<Longrightarrow>
     fst (generate_response utf8_console p c e w) =
       Inr ''I apologize, I'm having some trouble. Let me try again.''"
  by (simp_all add: generate_response_cases generate_try_raises generate_try_status)

section \<open>Facts about the string primitives\<close>

lemma is_space_lower_char: "is_space (lower_char c) = is_space c"
  unfolding is_space_def lower_char_def Let_def by auto

lemma strip_chars_padded:
  assumes "list_all p a" and "list_all p b" and "v \<noteq> []"
    and "\<not> p (hd v)" and "\<not> p (last v)"
  shows "strip_chars p (a @ v @ b) = v"
proof -
  have 1: "dropWhile p (a @ v @ b) = v @ b"
    using assms(1,3,4) by (cases v) (simp_all add: list_all_iff dropWhile_append)
  have "dropWhile p (rev b @ rev v) = dropWhile p (rev v)"
    using assms(2) by (intro dropWhile_append2) (simp add: list_all_iff)
  moreover have "dropWhile p (rev v) = rev v"
    using assms(3,5) by (cases v rule: rev_cases) simp_all
  ultimately have 2: "dropWhile p (rev b @ rev v) = rev v" by simp
  show ?thesis by (simp add: strip_chars_def 1 2)
qed

lemma strip_lower_padded:
  assumes "list_all is_space a" and "list_all is_space b" and "lower v = w"
    and "w \<noteq> []" and "\<not> is_space (hd w)" and "\<not> is_space (last w)"
  shows "strip (lower (a @ v @ b)) = w"
proof -
  have "lower (a @ v @ b) = lower a @ w @ lower b"
    using assms(3) by (simp add: lower_def)
  moreover have "list_all is_space (lower a)" "list_all is_space (lower b)"
    using assms(1,2) by (simp_all add: lower_def list_all_iff is_space_lower_char)
  ultimately show ?thesis
    using assms(4,5,6) by (simp add: strip_def strip_chars_padded)
qed

lemma percent_60:
  assumes "n > 0"
  shows "(real k / real n > 0.6) = (100 * k > 60 * n)"
proof -
  have "(real k / real n > 0.6) = (real (6 * n) < real (10 * k))"
    using assms by (simp add: field_simps)
  also have "\<dots> = (6 * n < 10 * k)"
    by (rule of_nat_less_iff)
  also have "\<dots> = (100 * k > 60 * n)"
    by auto
  finally show ?thesis .
qed

section \<open>Frame facts of the state machine\<close>

named_theorems frame

lemma ai_generate_snd:
  "\<exists>e'. snd (ai_generate p m) =
     m\<lparr>ai_engine := e',
       env := (env m)\<lparr>posted := posted (env m) @ [build_messages p None (ai_engine m)]\<rparr>\<rparr>"
proof -
  obtain r e' w' where
    g: "generate_response utf8_console p None (ai_engine m) (env m) = (r, e', w')"
    by (cases "generate_response utf8_console p None (ai_engine m) (env m)") auto
  with generate_response_env[of p None "ai_engine m" "env m"]
  have "w' = (env m)\<lparr>posted := posted (env m) @ [build_messages p None (ai_engine m)]\<rparr>"
    by simp
  with g show ?thesis by (auto simp: ai_generate_def)
qed

lemma ai_generate_frame [frame]:
  "state (snd (ai_generate p m)) = state m"
  "ctx (snd (ai_generate p m)) = ctx m"
  "phases (snd (ai_generate p m)) = phases m"
  "net (env (snd (ai_generate p m))) = net (env m)"
  "clock (env (snd (ai_generate p m))) = clock (env m)"
  "reads (env (snd (ai_generate p m))) = reads (env m)"
  "posted (env (snd (ai_generate p m))) =
     posted (env m) @ [build_messages p None (ai_engine m)]"
  using ai_generate_snd[of p m] by auto

lemma set_state_frame [frame]:
  "state (set_state s m) = s"
  "ctx (set_state s m) = ctx m"
  "phases (set_state s m) = phases m @ [s]"
  "env (set_state s m) = env m"
  "ai_engine (set_state s m) = ai_engine m"
  by (simp_all add: set_state_def)

lemma add_to_transcript_frame [frame]:
  "state (add_to_transcript who txt m) = state m"
  "ctx (add_to_transcript who txt m) =
     (ctx m)\<lparr>transcript := transcript (ctx m) @
        [\<lparr>speaker = who, spoken = txt, timestamp = clock (env m) (reads (env m))\<rparr>]\<rparr>"
  "phases (add_to_transcript who txt m) = phases m"
  "env (add_to_transcript who txt m) = (env m)\<lparr>reads := Suc (reads (env m))\<rparr>"
  "ai_engine (add_to_transcript who txt m) = ai_engine m"
  by (simp_all add: add_to_transcript_def now_def)

lemma give_hint_ctx:
  "ctx (snd (give_hint m)) =
     (ctx m)\<lparr>hints_given := hints_given (ctx m) + 1,
       transcript := transcript (ctx m) @
         [\<lparr>speaker = ''AI'', spoken = fst (give_hint m),
           timestamp = clock (env m) (reads (env m))\<rparr>]\<rparr>"
  by (simp add: give_hint_def Let_def case_prod_beta frame)

lemma give_hint_state:
  "state (snd (give_hint m)) = CANDIDATE_SOLVING"
  "phases (snd (give_hint m)) = phases m @ [GIVING_HINT, CANDIDATE_SOLVING]"
  by (simp_all add: give_hint_def Let_def case_prod_beta frame)


lemma evolves_refl: "evolves m m"
  by (simp add: evolves_def)

lemma evolves_trans:
  assumes ab: "evolves a b" and bc: "evolves b c"
  shows "evolves a c"
proof -
  have fr: "prefix (transcript (ctx a)) (transcript (ctx c))"
    "prefix (questions_asked (ctx a)) (questions_asked (ctx c))"
    "prefix (mistakes (ctx a)) (mistakes (ctx c))"
    "prefix (phases a) (phases c)"
    "prefix (posted (env a)) (posted (env c))"
    "current_code (ctx c) = current_code (ctx a)"
    "start_time (ctx c) = start_time (ctx a)"
    "max_retries (ctx c) = max_retries (ctx a)"
    "net (env c) = net (env a)"
    "clock (env c) = clock (env a)"
    "reads (env a) \<le> reads (env c)"
    using ab bc unfolding evolves_def by (auto intro: prefix_order.trans)
  have rd: "reads (env a) \<le> reads (env b)" "reads (env b) \<le> reads (env c)"
    and ck: "clock (env b) = clock (env a)"
    using ab bc unfolding evolves_def by auto
  have et: "end_time (ctx c) = end_time (ctx a) \<or>
      (\<exists>j. reads (env a) \<le> j \<and> j < reads (env c) \<and>
           end_time (ctx c) = Some (clock (env a) j))"
  proof -
    from bc consider (same) "end_time (ctx c) = end_time (ctx b)"
      | (new) j where "reads (env b) \<le> j" "j < reads (env c)"
          "end_time (ctx c) = Some (clock (env b) j)"
      unfolding evolves_def by blast
    then show ?thesis
    proof cases
      case same
      from ab consider (same') "end_time (ctx b) = end_time (ctx a)"
        | (new') j where "reads (env a) \<le> j" "j < reads (env b)"
            "end_time (ctx b) = Some (clock (env a) j)"
        unfolding evolves_def by blast
      then show ?thesis
      proof cases
        case same'
        with same show ?thesis by simp
      next
        case new'
        with same rd have "reads (env a) \<le> j \<and> j < reads (env c) \<and>
           end_time (ctx c) = Some (clock (env a) j)" by simp
        then show ?thesis by blast
      qed
    next
      case new
      with rd ck have "reads (env a) \<le> j \<and> j < reads (env c) \<and>
           end_time (ctx c) = Some (clock (env a) j)" by simp
      then show ?thesis by blast
    qed
  qed
  from fr et show ?thesis unfolding evolves_def by blast
qed

lemma evolves_set_state: "evolves m (set_state s m)"
  by (simp add: evolves_def frame)

lemma evolves_add_to_transcript: "evolves m (add_to_transcript who txt m)"
  by (simp add: evolves_def frame)

lemma evolves_ai_generate: "evolves m (snd (ai_generate p m))"
  by (simp add: evolves_def frame)

lemma evolves_give_hint: "evolves m (snd (give_hint m))"
  by (simp add: give_hint_def Let_def case_prod_beta frame evolves_def)

lemma evolves_ask_follow_up: "evolves m (snd (ask_follow_up m))"
  by (simp add: ask_follow_up_def Let_def case_prod_beta frame evolves_def)

lemma evolves_present_question: "evolves m (snd (present_question m))"
  by (simp add: present_question_def Let_def case_prod_beta frame evolves_def)

lemma end_interview_end_time:
  "end_time (ctx (snd (end_interview m))) = Some (clock (env m) (reads (env m)))"
  by (simp add: end_interview_def now_def Let_def case_prod_beta frame)

lemma end_interview_reads:
  "reads (env (snd (end_interview m))) = Suc (Suc (reads (env m)))"
  by (simp add: end_interview_def now_def Let_def case_prod_beta frame)

lemma evolves_end_interview: "evolves m (snd (end_interview m))"
proof -
  have "reads (env m) \<le> reads (env m) \<and> reads (env m) < reads (env (snd (end_interview m))) \<and>
        end_time (ctx (snd (end_interview m))) = Some (clock (env m) (reads (env m)))"
    by (simp add: end_interview_end_time end_interview_reads)
  then have "\<exists>j. reads (env m) \<le> j \<and> j < reads (env (snd (end_interview m))) \<and>
        end_time (ctx (snd (end_interview m))) = Some (clock (env m) j)"
    by blast
  moreover have "prefix (transcript (ctx m)) (transcript (ctx (snd (end_interview m)))) \<and>
     prefix (questions_asked (ctx m)) (questions_asked (ctx (snd (end_interview m)))) \<and>
     prefix (mistakes (ctx m)) (mistakes (ctx (snd (end_interview m)))) \<and>
     prefix (phases m) (phases (snd (end_interview m))) \<and>
     prefix (posted (env m)) (posted (env (snd (end_interview m)))) \<and>
     current_code (ctx (snd (end_interview m))) = current_code (ctx m) \<and>
     start_time (ctx (snd (end_interview m))) = start_time (ctx m) \<and>
     max_retries (ctx (snd (end_interview m))) = max_retries (ctx m) \<and>
     net (env (snd (end_interview m))) = net (env m) \<and>
     clock (env (snd (end_interview m))) = clock (env m) \<and>
     reads (env m) \<le> reads (env (snd (end_interview m)))"
    by (simp add: end_interview_def now_def Let_def case_prod_beta frame)
  ultimately show ?thesis unfolding evolves_def by blast
qed

lemma evolves_generate_contextual_response:
  "evolves m (snd (generate_contextual_response u m))"
  by (simp add: generate_contextual_response_def Let_def case_prod_beta frame evolves_def)

lemma evolves_move_on_or_conclude: "evolves m (snd (move_on_or_conclude m))"
  using evolves_present_question[of m] evolves_end_interview[of m]
  by (simp add: move_on_or_conclude_def Let_def case_prod_beta)

lemma evolves_attempts: "evolves m (m\<lparr>ctx := (ctx m)\<lparr>follow_up_attempts := k\<rparr>\<rparr>)"
  by (simp add: evolves_def)


lemma hsr_garbage:
  "is_garbage_input u \<Longrightarrow>
   handle_solving_response u m = (''I didn't catch that. Could you repeat?'', m)"
  by (simp add: handle_solving_response_def)

lemma hsr_hint:
  "\<not> is_garbage_input u \<Longrightarrow> is_asking_for_hint u \<Longrightarrow>
   handle_solving_response u m = give_hint (m\<lparr>ctx := (ctx m)\<lparr>follow_up_attempts := 0\<rparr>\<rparr>)"
  by (simp add: handle_solving_response_def)

lemma hsr_finished:
  "\<not> is_garbage_input u \<Longrightarrow> \<not> is_asking_for_hint u \<Longrightarrow> seems_finished u \<Longrightarrow>
   handle_solving_response u m = ask_follow_up (m\<lparr>ctx := (ctx m)\<lparr>follow_up_attempts := 0\<rparr>\<rparr>)"
  by (simp add: handle_solving_response_def)

lemma hsr_forced:
  "\<not> is_garbage_input u \<Longrightarrow> \<not> is_asking_for_hint u \<Longrightarrow> \<not> seems_finished u \<Longrightarrow>
   max_retries (ctx m) \<le> follow_up_attempts (ctx m) + 1 \<Longrightarrow>
   handle_solving_response u m =
     move_on_or_conclude (m\<lparr>ctx := (ctx m)\<lparr>follow_up_attempts := 0\<rparr>\<rparr>)"
  by (simp add: handle_solving_response_def Let_def)

lemma hsr_feedback:
  assumes "\<not> is_garbage_input u" "\<not> is_asking_for_hint u" "\<not> seems_finished u"
    and "follow_up_attempts (ctx m) + 1 < max_retries (ctx m)"
  shows "state (snd (handle_solving_response u m)) = state m"
    and "phases (snd (handle_solving_response u m)) = phases m"
    and "follow_up_attempts (ctx (snd (handle_solving_response u m))) =
           follow_up_attempts (ctx m) + 1"
    and "questions_asked (ctx (snd (handle_solving_response u m))) = questions_asked (ctx m)"
    and "end_time (ctx (snd (handle_solving_response u m))) = end_time (ctx m)"
    and "evolves m (snd (handle_solving_response u m))"
  using assms
  by (simp_all add: handle_solving_response_def Let_def case_prod_beta frame evolves_def)

lemma evolves_handle_solving_response: "evolves m (snd (handle_solving_response u m))"
proof -
  let ?m0 = "m\<lparr>ctx := (ctx m)\<lparr>follow_up_attempts := 0\<rparr>\<rparr>"
  consider (g) "is_garbage_input u"
    | (h) "\<not> is_garbage_input u" "is_asking_for_hint u"
    | (f) "\<not> is_garbage_input u" "\<not> is_asking_for_hint u" "seems_finished u"
    | (x) "\<not> is_garbage_input u" "\<not> is_asking_for_hint u" "\<not> seems_finished u"
          "max_retries (ctx m) \<le> follow_up_attempts (ctx m) + 1"
    | (d) "\<not> is_garbage_input u" "\<not> is_asking_for_hint u" "\<not> seems_finished u"
          "follow_up_attempts (ctx m) + 1 < max_retries (ctx m)"
    by fastforce
  then show ?thesis
  proof cases
    case g
    then show ?thesis by (simp add: hsr_garbage evolves_refl)
  next
    case h
    then show ?thesis
      using evolves_trans[OF evolves_attempts evolves_give_hint, of m 0]
      by (simp add: hsr_hint)
  next
    case f
    then show ?thesis
      using evolves_trans[OF evolves_attempts evolves_ask_follow_up, of m 0]
      by (simp add: hsr_finished)
  next
    case x
    then show ?thesis
      using evolves_trans[OF evolves_attempts evolves_move_on_or_conclude, of m 0]
      by (simp add: hsr_forced)
  next
    case d
    then show ?thesis by (rule hsr_feedback(6))
  qed
qed

lemma evolves_handle_post_hint: "evolves m (snd (handle_post_hint u m))"
  unfolding handle_post_hint_def
  by (rule evolves_trans[OF evolves_set_state evolves_handle_solving_response])

lemma evolves_handle_follow_up_response: "evolves m (snd (handle_follow_up_response u m))"
proof -
  let ?m1 = "add_to_transcript ''AI''
      (fst (ai_generate (follow_up_feedback_prompt (current_question (ctx m))
             (current_code (ctx m)) u) m))
      (snd (ai_generate (follow_up_feedback_prompt (current_question (ctx m))
             (current_code (ctx m)) u) m))"
  have 1: "evolves m ?m1"
    by (rule evolves_trans[OF evolves_ai_generate evolves_add_to_transcript])
  have 2: "evolves m (snd (end_interview ?m1))"
    by (rule evolves_trans[OF 1 evolves_end_interview])
  show ?thesis
    using 1 2 by (simp add: handle_follow_up_response_def Let_def case_prod_beta)
qed

lemma evolves_interview_type: "evolves m (m\<lparr>ctx := (ctx m)\<lparr>interview_type := k\<rparr>\<rparr>)"
  by (simp add: evolves_def)

lemma evolves_handle_greeting_response: "evolves m (snd (handle_greeting_response u m))"
  unfolding handle_greeting_response_def Let_def
  by (rule evolves_trans[OF evolves_interview_type evolves_present_question])

text \<open>The machine on which \<open>process_user_input\<close> runs the handler of the current phase.\<close>

lemma evolves_process_user_input:
  "evolves ((add_to_transcript ''User'' u m)\<lparr>ctx :=
              (ctx (add_to_transcript ''User'' u m))\<lparr>current_code := c\<rparr>\<rparr>)
           (snd (process_user_input u c m))"
  by (simp add: process_user_input_def Let_def handle_topic_selection_def
      evolves_handle_greeting_response evolves_present_question
      evolves_handle_solving_response evolves_handle_follow_up_response
      evolves_handle_post_hint evolves_generate_contextual_response)

lemma evolves_request_hint: "evolves m (snd (request_hint m))"
  by (simp add: request_hint_def evolves_give_hint evolves_refl)


section \<open>Phases and questions asked\<close>

lemma present_question_facts:
  "state (snd (present_question m)) = CANDIDATE_SOLVING"
  "phases (snd (present_question m)) = phases m @ [QUESTION_PRESENTING, CANDIDATE_SOLVING]"
  "\<exists>t. questions_asked (ctx (snd (present_question m))) = questions_asked (ctx m) @ [t]"
  "length (questions_asked (ctx (snd (present_question m)))) =
     Suc (length (questions_asked (ctx m)))"
  "end_time (ctx (snd (present_question m))) = end_time (ctx m)"
  by (simp_all add: present_question_def Let_def case_prod_beta frame)

lemma end_interview_facts:
  "state (snd (end_interview m)) = ENDED"
  "phases (snd (end_interview m)) = phases m @ [CLOSING, ENDED]"
  "questions_asked (ctx (snd (end_interview m))) = questions_asked (ctx m)"
  by (simp_all add: end_interview_def now_def Let_def case_prod_beta frame)

lemma give_hint_facts:
  "state (snd (give_hint m)) = CANDIDATE_SOLVING"
  "questions_asked (ctx (snd (give_hint m))) = questions_asked (ctx m)"
  by (simp_all add: give_hint_def Let_def case_prod_beta frame)

lemma ask_follow_up_facts:
  "state (snd (ask_follow_up m)) = FOLLOW_UP"
  "questions_asked (ctx (snd (ask_follow_up m))) = questions_asked (ctx m)"
  by (simp_all add: ask_follow_up_def Let_def case_prod_beta frame)

lemma generate_contextual_response_facts:
  "state (snd (generate_contextual_response u m)) = state m"
  "questions_asked (ctx (snd (generate_contextual_response u m))) = questions_asked (ctx m)"
  by (simp_all add: generate_contextual_response_def Let_def case_prod_beta frame)

lemma move_on_or_conclude_snd:
  "snd (move_on_or_conclude m) =
     (if length (questions_asked (ctx m)) < 2 then snd (present_question m)
      else snd (end_interview m))"
  by (simp add: move_on_or_conclude_def Let_def case_prod_beta)

lemma handle_follow_up_response_facts:
  "2 \<le> length (questions_asked (ctx m)) \<Longrightarrow>
     state (snd (handle_follow_up_response u m)) = ENDED"
  "2 \<le> length (questions_asked (ctx m)) \<Longrightarrow>
     phases (snd (handle_follow_up_response u m)) = phases m @ [CLOSING, ENDED]"
  "length (questions_asked (ctx m)) < 2 \<Longrightarrow>
     state (snd (handle_follow_up_response u m)) = state m"
  "length (questions_asked (ctx m)) < 2 \<Longrightarrow>
     phases (snd (handle_follow_up_response u m)) = phases m"
  "questions_asked (ctx (snd (handle_follow_up_response u m))) = questions_asked (ctx m)"
  by (simp_all add: handle_follow_up_response_def Let_def case_prod_beta frame
      end_interview_facts)

lemma capped_present_question:
  "length (questions_asked (ctx m)) < 2 \<Longrightarrow> capped (snd (present_question m))"
  by (simp add: capped_def present_question_facts)

lemma capped_end_interview:
  "length (questions_asked (ctx m)) \<le> 2 \<Longrightarrow> capped (snd (end_interview m))"
  by (simp add: capped_def end_interview_facts)

lemma capped_move_on_or_conclude:
  "length (questions_asked (ctx m)) \<le> 2 \<Longrightarrow> capped (snd (move_on_or_conclude m))"
  by (simp add: move_on_or_conclude_snd capped_present_question capped_end_interview)

lemma capped_give_hint:
  "length (questions_asked (ctx m)) \<le> 2 \<Longrightarrow> capped (snd (give_hint m))"
  by (simp add: capped_def give_hint_facts)

lemma capped_ask_follow_up:
  "length (questions_asked (ctx m)) \<le> 2 \<Longrightarrow> capped (snd (ask_follow_up m))"
  by (simp add: capped_def ask_follow_up_facts)

lemma capped_handle_solving_response:
  assumes "capped m"
  shows "capped (snd (handle_solving_response u m))"
proof -
  let ?m0 = "m\<lparr>ctx := (ctx m)\<lparr>follow_up_attempts := 0\<rparr>\<rparr>"
  have len: "length (questions_asked (ctx ?m0)) \<le> 2"
    using assms by (simp add: capped_def)
  consider (g) "is_garbage_input u"
    | (h) "\<not> is_garbage_input u" "is_asking_for_hint u"
    | (f) "\<not> is_garbage_input u" "\<not> is_asking_for_hint u" "seems_finished u"
    | (x) "\<not> is_garbage_input u" "\<not> is_asking_for_hint u" "\<not> seems_finished u"
          "max_retries (ctx m) \<le> follow_up_attempts (ctx m) + 1"
    | (d) "\<not> is_garbage_input u" "\<not> is_asking_for_hint u" "\<not> seems_finished u"
          "follow_up_attempts (ctx m) + 1 < max_retries (ctx m)"
    by fastforce
  then show ?thesis
  proof cases
    case g
    then show ?thesis using assms by (simp add: hsr_garbage)
  next
    case h
    then show ?thesis using capped_give_hint[OF len] by (simp add: hsr_hint)
  next
    case f
    then show ?thesis using capped_ask_follow_up[OF len] by (simp add: hsr_finished)
  next
    case x
    then show ?thesis using capped_move_on_or_conclude[OF len] by (simp add: hsr_forced)
  next
    case d
    then show ?thesis using assms by (simp add: capped_def hsr_feedback(1,4))
  qed
qed

lemma capped_handle_follow_up_response:
  assumes "capped m" and "state m = FOLLOW_UP"
  shows "capped (snd (handle_follow_up_response u m))"
proof (cases "length (questions_asked (ctx m)) < 2")
  case True
  then show ?thesis
    using assms by (simp add: capped_def handle_follow_up_response_facts)
next
  case False
  then show ?thesis
    using assms by (simp add: capped_def handle_follow_up_response_facts)
qed

lemma capped_start_interview: "capped (snd (start_interview m))"
  by (simp add: capped_def start_interview_def now_def Let_def case_prod_beta frame
      new_context_def)

lemma capped_request_hint:
  assumes "capped m"
  shows "capped (snd (request_hint m))"
proof (cases "state m = CANDIDATE_SOLVING")
  case True
  from assms have "length (questions_asked (ctx m)) \<le> 2" by (simp add: capped_def)
  from capped_give_hint[OF this] True show ?thesis by (simp add: request_hint_def)
next
  case False
  with assms show ?thesis by (simp add: request_hint_def)
qed

lemma capped_process_user_input:
  assumes "capped m"
  shows "capped (snd (process_user_input u c m))"
proof -
  let ?m2 = "(add_to_transcript ''User'' u m)\<lparr>ctx :=
               (ctx (add_to_transcript ''User'' u m))\<lparr>current_code := c\<rparr>\<rparr>"
  have s: "state ?m2 = state m" and q: "questions_asked (ctx ?m2) = questions_asked (ctx m)"
    by (simp_all add: frame)
  have c2: "capped ?m2" using assms by (simp add: capped_def frame)
  have p: "process_user_input u c m =
     (if state m = GREETING then handle_greeting_response u ?m2
      else if state m = TOPIC_SELECTION then handle_topic_selection u ?m2
      else if state m = CANDIDATE_SOLVING then handle_solving_response u ?m2
      else if state m = FOLLOW_UP then handle_follow_up_response u ?m2
      else if state m = GIVING_HINT then handle_post_hint u ?m2
      else generate_contextual_response u ?m2)"
    by (simp add: process_user_input_def Let_def frame)
  have nt: "state m \<noteq> TOPIC_SELECTION" using assms by (simp add: capped_def)
  consider (gr) "state m = GREETING" | (cs) "state m = CANDIDATE_SOLVING"
    | (fu) "state m = FOLLOW_UP" | (gh) "state m = GIVING_HINT"
    | (other) "state m \<notin> {GREETING, TOPIC_SELECTION, CANDIDATE_SOLVING, FOLLOW_UP, GIVING_HINT}"
    using nt by blast
  then show ?thesis
  proof cases
    case gr
    with assms have "questions_asked (ctx m) = []" by (simp add: capped_def)
    then have "length (questions_asked (ctx (?m2\<lparr>ctx := (ctx ?m2)\<lparr>interview_type := k\<rparr>\<rparr>))) < 2" for k
      by (simp add: frame)
    then have "capped (snd (handle_greeting_response u ?m2))"
      unfolding handle_greeting_response_def Let_def by (rule capped_present_question)
    with gr p show ?thesis by simp
  next
    case cs
    with p capped_handle_solving_response[OF c2] show ?thesis by simp
  next
    case fu
    with p capped_handle_follow_up_response[OF c2] s show ?thesis by simp
  next
    case gh
    have "capped (set_state CANDIDATE_SOLVING ?m2)"
      using c2 by (simp add: capped_def frame)
    then have "capped (snd (handle_post_hint u ?m2))"
      unfolding handle_post_hint_def by (rule capped_handle_solving_response)
    with gh p show ?thesis by simp
  next
    case other
    then have "process_user_input u c m = generate_contextual_response u ?m2"
      using p by simp
    then show ?thesis
      using c2 other by (simp add: capped_def generate_contextual_response_facts s)
  qed
qed

lemma process_task_snd:
  "snd (process_task tts t m) =
     (if action t = ''start'' then snd (start_interview m)
      else if action t = ''process'' then snd (process_user_input (user_input t) (code t) m)
      else if action t = ''hint'' then snd (request_hint m)
      else if action t = ''end'' then snd (end_interview m)
      else m)"
  by (simp add: process_task_def Let_def case_prod_beta)

lemma capped_process_task:
  assumes "capped m"
  shows "capped (snd (process_task tts t m))"
proof -
  from assms have "length (questions_asked (ctx m)) \<le> 2" by (simp add: capped_def)
  from capped_end_interview[OF this] assms show ?thesis
    by (simp add: process_task_snd capped_start_interview capped_process_user_input
        capped_request_hint)
qed

lemma capped_run_tasks: "capped m \<Longrightarrow> capped (run_tasks tts ts m)"
  by (induction ts arbitrary: m) (simp_all add: capped_process_task)

lemma capped_new_machine: "capped (new_machine w)"
  by (simp add: capped_def new_machine_def new_context_def)


section \<open>Start and end times\<close>









lemma clock_process_task: "clock (env (snd (process_task tts t m))) = clock (env m)"
proof -
  let ?m1 = "add_to_transcript ''User'' (user_input t) m"
  let ?m2 = "?m1\<lparr>ctx := (ctx ?m1)\<lparr>current_code := code t\<rparr>\<rparr>"
  have "clock (env (snd (process_user_input (user_input t) (code t) m))) = clock (env ?m2)"
    using evolves_process_user_input[where u = "user_input t" and m = m and c = "code t"]
    by (simp add: evolves_def)
  then have 1: "clock (env (snd (process_user_input (user_input t) (code t) m))) = clock (env m)"
    by (simp add: frame)
  have 2: "clock (env (snd (request_hint m))) = clock (env m)"
    using evolves_request_hint[of m] by (simp add: evolves_def)
  have 3: "clock (env (snd (end_interview m))) = clock (env m)"
    using evolves_end_interview[of m] by (simp add: evolves_def)
  have 4: "clock (env (snd (start_interview m))) = clock (env m)"
    by (simp add: start_interview_def now_def Let_def case_prod_beta frame)
  show ?thesis by (simp add: process_task_snd 1 2 3 4)
qed


section \<open>The worker loop\<close>

lemma worker_inv_new: "worker_inv (new_worker m tts)"
  by (simp add: worker_inv_def new_worker_def in_hand_def)

lemma worker_inv_queue_action: "worker_inv s \<Longrightarrow> worker_inv (queue_action t s)"
  by (simp add: worker_inv_def queue_action_def in_hand_def)

lemma worker_inv_stop: "worker_inv s \<Longrightarrow> worker_inv (stop s)"
  by (simp add: worker_inv_def stop_def in_hand_def)

lemma worker_inv_run_step:
  assumes "worker_inv s"
  shows "worker_inv (run_step s)"
proof (cases "pos s")
  case at_loop
  with assms show ?thesis
    by (cases "task_queue s") (auto simp: worker_inv_def run_step_def in_hand_def)
next
  case (popped t)
  with assms show ?thesis by (auto simp: worker_inv_def run_step_def in_hand_def)
next
  case (dispatching t)
  with assms show ?thesis
    by (auto simp: worker_inv_def run_step_def in_hand_def case_prod_beta Let_def)
next
  case clearing
  with assms show ?thesis by (auto simp: worker_inv_def run_step_def in_hand_def)
next
  case signalling
  with assms show ?thesis by (auto simp: worker_inv_def run_step_def in_hand_def)
next
  case stopped
  with assms show ?thesis by (auto simp: worker_inv_def run_step_def in_hand_def)
qed

lemma worker_inv_reachable: "reachable s \<Longrightarrow> worker_inv s"
proof (induction rule: reachable.induct)
  case (init m tts)
  show ?case by (rule worker_inv_new)
next
  case (next_step s s')
  from next_step.hyps(2) next_step.IH show ?case
    by (cases rule: step.cases)
       (simp_all add: worker_inv_run_step worker_inv_queue_action worker_inv_stop)
qed

lemma one_task:
  assumes "pos s = at_loop" "running s" "\<not> is_busy s" "task_queue s = t # q"
  shows "run_step s = s\<lparr>task_queue := q, pos := popped t\<rparr>"
    and "(run_step ^^ 2) s = s\<lparr>task_queue := q, is_busy := True, pos := dispatching t\<rparr>"
    and "(run_step ^^ 3) s =
           s\<lparr>task_queue := q, is_busy := True, pos := clearing,
             interview_state := snd (process_task (tts_engine s) t (interview_state s)),
             emitted := emitted s @ fst (process_task (tts_engine s) t (interview_state s)),
             dispatched := dispatched s @ [t]\<rparr>"
    and "(run_step ^^ 4) s =
           s\<lparr>task_queue := q, is_busy := False, pos := signalling,
             interview_state := snd (process_task (tts_engine s) t (interview_state s)),
             emitted := emitted s @ fst (process_task (tts_engine s) t (interview_state s)),
             dispatched := dispatched s @ [t]\<rparr>"
    and "(run_step ^^ 5) s =
           s\<lparr>task_queue := q,
             interview_state := snd (process_task (tts_engine s) t (interview_state s)),
             emitted := emitted s @ fst (process_task (tts_engine s) t (interview_state s)) @
                        [task_complete],
             dispatched := dispatched s @ [t]\<rparr>"
  using assms
  by (simp_all add: numeral_2_eq_2 numeral_3_eq_3 eval_nat_numeral run_step_def
      case_prod_beta Let_def)

lemma drain:
  "pos s = at_loop \<Longrightarrow> running s \<Longrightarrow> \<not> is_busy s \<Longrightarrow>
   (run_step ^^ (5 * length (task_queue s))) s =
     s\<lparr>task_queue := [],
       interview_state := run_tasks (tts_engine s) (task_queue s) (interview_state s),
       emitted := emitted s @ run_signals (tts_engine s) (task_queue s) (interview_state s),
       dispatched := dispatched s @ task_queue s\<rparr>"
proof (induction "task_queue s" arbitrary: s)
  case Nil
  then show ?case by simp
next
  case (Cons t q)
  let ?s5 = "(run_step ^^ 5) s"
  have tq: "task_queue s = t # q" using Cons.hyps(2) by simp
  note five = one_task(5)[OF Cons.prems tq]
  have q5: "q = task_queue ?s5" and p5: "pos ?s5 = at_loop" "running ?s5" "\<not> is_busy ?s5"
    using Cons.prems by (simp_all add: five)
  have tq5: "task_queue ?s5 = q" using q5 by simp
  have "5 * length (task_queue s) = 5 * length q + 5" using tq by simp
  then have "(run_step ^^ (5 * length (task_queue s))) s =
        (run_step ^^ (5 * length q)) ?s5"
    by (simp only: funpow_add o_apply)
  also have "\<dots> = (run_step ^^ (5 * length (task_queue ?s5))) ?s5"
    by (simp only: tq5)
  also have "\<dots> = ?s5\<lparr>task_queue := [],
       interview_state := run_tasks (tts_engine ?s5) (task_queue ?s5) (interview_state ?s5),
       emitted := emitted ?s5 @ run_signals (tts_engine ?s5) (task_queue ?s5) (interview_state ?s5),
       dispatched := dispatched ?s5 @ task_queue ?s5\<rparr>"
    by (rule Cons.hyps(1)[OF q5 p5])
  also have "\<dots> = s\<lparr>task_queue := [],
       interview_state := run_tasks (tts_engine s) (task_queue s) (interview_state s),
       emitted := emitted s @ run_signals (tts_engine s) (task_queue s) (interview_state s),
       dispatched := dispatched s @ task_queue s\<rparr>"
    by (simp add: five tq)
  finally show ?case .
qed


section \<open>The retry counter\<close>

text \<open>
  What \<open>_handle_solving_response\<close> does with \<open>follow_up_attempts\<close>: a garbage utterance
  leaves it alone; a hint request or a detected completion resets it; on the default path
  it is incremented, and when the incremented value reaches \<open>max_retries\<close> it is reset
  and \<open>_move_on_or_conclude\<close> runs.
\<close>

lemma attempts_give_hint:
  "follow_up_attempts (ctx (snd (give_hint m))) = follow_up_attempts (ctx m)"
  by (simp add: give_hint_def Let_def case_prod_beta frame)

lemma attempts_ask_follow_up:
  "follow_up_attempts (ctx (snd (ask_follow_up m))) = follow_up_attempts (ctx m)"
  by (simp add: ask_follow_up_def Let_def case_prod_beta frame)

lemma attempts_present_question:
  "follow_up_attempts (ctx (snd (present_question m))) = follow_up_attempts (ctx m)"
  by (simp add: present_question_def Let_def case_prod_beta frame)

lemma attempts_end_interview:
  "follow_up_attempts (ctx (snd (end_interview m))) = follow_up_attempts (ctx m)"
  by (simp add: end_interview_def now_def Let_def case_prod_beta frame)

lemma attempts_move_on_or_conclude:
  "follow_up_attempts (ctx (snd (move_on_or_conclude m))) = follow_up_attempts (ctx m)"
  by (simp add: move_on_or_conclude_def Let_def case_prod_beta
      attempts_present_question attempts_end_interview)

lemma attempts_handle_solving_response:
  "follow_up_attempts (ctx (snd (handle_solving_response u m))) =
     (if is_garbage_input u then follow_up_attempts (ctx m)
      else if is_asking_for_hint u \<or> seems_finished u then 0
      else if max_retries (ctx m) \<le> follow_up_attempts (ctx m) + 1 then 0
      else follow_up_attempts (ctx m) + 1)"
proof -
  consider (g) "is_garbage_input u"
    | (h) "\<not> is_garbage_input u" "is_asking_for_hint u"
    | (f) "\<not> is_garbage_input u" "\<not> is_asking_for_hint u" "seems_finished u"
    | (x) "\<not> is_garbage_input u" "\<not> is_asking_for_hint u" "\<not> seems_finished u"
          "max_retries (ctx m) \<le> follow_up_attempts (ctx m) + 1"
    | (d) "\<not> is_garbage_input u" "\<not> is_asking_for_hint u" "\<not> seems_finished u"
          "follow_up_attempts (ctx m) + 1 < max_retries (ctx m)"
    by fastforce
  then show ?thesis
  proof cases
    case g
    then show ?thesis by (simp add: hsr_garbage)
  next
    case h
    then show ?thesis by (simp add: hsr_hint attempts_give_hint)
  next
    case f
    then show ?thesis by (simp add: hsr_finished attempts_ask_follow_up)
  next
    case x
    then show ?thesis by (simp add: hsr_forced attempts_move_on_or_conclude)
  next
    case d
    then show ?thesis by (simp add: hsr_feedback(3))
  qed
qed

text \<open>\<open>request_hint\<close> never touches the counter.\<close>

lemma attempts_request_hint:
  "follow_up_attempts (ctx (snd (request_hint m))) = follow_up_attempts (ctx m)"
  by (simp add: request_hint_def attempts_give_hint)

text \<open>
  Claim C1 says that \<open>follow_up_attempts\<close> is reset to 0 whenever a hint is requested,
  the entry point \<open>request_hint\<close> included. On a machine in \<open>CANDIDATE_SOLVING\<close> with
  three attempts counted, \<open>request_hint\<close> gives the hint and leaves the counter at 3,
  while the spoken request for a hint resets it to 0.
\<close>

theorem request_hint_keeps_attempts:
  "state (solving_machine 3 (env0 (Raises Timeout))) = CANDIDATE_SOLVING \<and>
   hints_given (ctx (snd (request_hint (solving_machine 3 (env0 (Raises Timeout)))))) = 1 \<and>
   follow_up_attempts (ctx (snd (request_hint (solving_machine 3 (env0 (Raises Timeout)))))) = 3 \<and>
   follow_up_attempts (ctx (snd (handle_solving_response ''can I get a hint please''
      (solving_machine 3 (env0 (Raises Timeout)))))) = 0"
  by code_simp

section \<open>Feedback tags\<close>

text \<open>
  The example of the specification: the response "[WRONG] Actually it's O(n log n)."
  appends one mistake with the correction "Actually it's O(n log n)." and the text
  returned is the same sentence without the tag.
\<close>

lemma wrong_tag_example:
  "fst (handle_solving_response ''it runs in linear time''
          (solving_machine 0 (reply_env ''[WRONG] Actually it's O(n log n).'')))
     = ''Actually it's O(n log n).'' \<and>
   map correction (mistakes (ctx (snd (handle_solving_response ''it runs in linear time''
          (solving_machine 0 (reply_env ''[WRONG] Actually it's O(n log n).''))))))
     = [''Actually it's O(n log n).'']"
  by code_simp

text \<open>
  Claim C2 says that a response carrying the WRONG tag in any case yields a correction
  without the tag and a returned text without any bracketed tag. The source finds the tag
  in \<open>response.upper()\<close> but removes only the spellings \<open>[WRONG]\<close> and \<open>[wrong]\<close>: for
  the response "[Wrong] No, it is O(n log n)." a mistake is recorded whose correction
  still starts with the tag, and the returned text still carries it.
\<close>

theorem mixed_case_tag_survives:
  "contains ''[WRONG]'' (upper ''[Wrong] No, it is O(n log n).'') \<and>
   fst (handle_solving_response ''it runs in linear time''
          (solving_machine 0 (reply_env ''[Wrong] No, it is O(n log n).'')))
     = ''[Wrong] No, it is O(n log n).'' \<and>
   map correction (mistakes (ctx (snd (handle_solving_response ''it runs in linear time''
          (solving_machine 0 (reply_env ''[Wrong] No, it is O(n log n).''))))))
     = [''[Wrong] No, it is O(n log n).'']"
  by code_simp

section \<open>Garbage utterances while solving\<close>

text \<open>
  Claim C3 as stated: processing an utterance that the garbage classifier matches leaves
  the session context unchanged. It fails for the utterance "um": \<open>process_user_input\<close>
  has already appended it to the transcript when the classifier runs.
\<close>

theorem garbage_input_changes_context:
  "state (solving_machine 2 (env0 (Raises Timeout))) = CANDIDATE_SOLVING \<and>
   is_garbage_input ''um'' \<and>
   transcript (ctx (snd (process_user_input ''um'' [] (solving_machine 2 (env0 (Raises Timeout))))))
     \<noteq> transcript (ctx (solving_machine 2 (env0 (Raises Timeout))))"
  by code_simp

text \<open>
  Claim C3, amended. For every utterance that the garbage classifier matches while in
  \<open>CANDIDATE_SOLVING\<close>, \<open>process_user_input\<close> returns the fixed reprompt, sends nothing to
  the generative service (request log and engine unchanged), leaves the phase, its history
  and \<open>follow_up_attempts\<close> unchanged, and changes the session context in two fields only:
  the utterance is appended to the transcript and \<open>current_code\<close> is the supplied snapshot.
\<close>

theorem garbage_input_frame:
  "state m = CANDIDATE_SOLVING \<and> is_garbage_input u \<longrightarrow>
     fst (process_user_input u c m) = ''I didn't catch that. Could you repeat?'' \<and>
     state (snd (process_user_input u c m)) = state m \<and>
     phases (snd (process_user_input u c m)) = phases m \<and>
     ai_engine (snd (process_user_input u c m)) = ai_engine m \<and>
     posted (env (snd (process_user_input u c m))) = posted (env m) \<and>
     follow_up_attempts (ctx (snd (process_user_input u c m))) = follow_up_attempts (ctx m) \<and>
     ctx (snd (process_user_input u c m)) =
       (ctx m)\<lparr>transcript := transcript (ctx m) @
                  [\<lparr>speaker = ''User'', spoken = u,
                    timestamp = clock (env m) (reads (env m))\<rparr>],
               current_code := c\<rparr>"
  by (simp add: process_user_input_def Let_def frame hsr_garbage)

theorem garbage_input_frame_witness:
  "fst (process_user_input ''um'' ''x = 1'' (solving_machine 2 (env0 (Raises Timeout))))
     = ''I didn't catch that. Could you repeat?'' \<and>
   follow_up_attempts (ctx (snd (process_user_input ''um'' ''x = 1''
     (solving_machine 2 (env0 (Raises Timeout)))))) = 2 \<and>
   posted (env (snd (process_user_input ''um'' ''x = 1''
     (solving_machine 2 (env0 (Raises Timeout)))))) = []"
proof -
  have "state (solving_machine 2 (env0 (Raises Timeout))) = CANDIDATE_SOLVING \<and>
        is_garbage_input ''um''"
    by code_simp
  with garbage_input_frame[of "solving_machine 2 (env0 (Raises Timeout))" "''um''" "''x = 1''"]
  show ?thesis by (simp add: solving_machine_def env0_def)
qed

section \<open>The garbage classifier\<close>

text \<open>
  Claim C4. \<open>_is_garbage_input\<close> returns true exactly when the utterance has fewer than
  3 characters, or is one of "the", "a", "an", "uh", "um" once lower-cased and trimmed,
  or has more than 3 whitespace-separated words of which strictly more than 60 percent
  have length at most 2. In particular it returns true for every utterance that is one of
  "um", "uh", "the", "a" in any casing \<open>v\<close>, surrounded by any whitespace \<open>a\<close>, \<open>b\<close>.
\<close>

theorem is_garbage_input_iff:
  "(is_garbage_input u \<longleftrightarrow> garbage_spec u) \<and>
   (w \<in> {''um'', ''uh'', ''the'', ''a''} \<and> lower v = w \<and>
    list_all is_space a \<and> list_all is_space b
      \<longrightarrow> is_garbage_input (a @ v @ b))"
proof
  show "is_garbage_input u \<longleftrightarrow> garbage_spec u"
  proof (cases "length (split u) > 3")
    case True
    then have "length (split u) > 0" by linarith
    from percent_60[OF this] True show ?thesis
      by (simp add: is_garbage_input_def garbage_spec_def Let_def)
  next
    case False
    then show ?thesis by (auto simp add: is_garbage_input_def garbage_spec_def Let_def)
  qed
next
  show "w \<in> {''um'', ''uh'', ''the'', ''a''} \<and> lower v = w \<and>
        list_all is_space a \<and> list_all is_space b
      \<longrightarrow> is_garbage_input (a @ v @ b)"
  proof (intro impI, elim conjE)
    assume w: "w \<in> {''um'', ''uh'', ''the'', ''a''}" and v: "lower v = w"
      and a: "list_all is_space a" and b: "list_all is_space b"
    from w have "w \<noteq> [] \<and> \<not> is_space (hd w) \<and> \<not> is_space (last w)"
      by (auto simp: is_space_def)
    with strip_lower_padded[OF a b v] have "strip (lower (a @ v @ b)) = w" by simp
    with w show "is_garbage_input (a @ v @ b)"
      by (auto simp add: is_garbage_input_def)
  qed
qed

theorem is_garbage_input_iff_witness:
  "is_garbage_input (''  '' @ ''Um'' @ '' '') \<and>
   (is_garbage_input ''I a b c d uses'' \<longleftrightarrow> garbage_spec ''I a b c d uses'')"
proof -
  have h: "''um'' \<in> {''um'', ''uh'', ''the'', ''a''} \<and> lower ''Um'' = ''um'' \<and>
           list_all is_space ''  '' \<and> list_all is_space '' ''"
    by code_simp
  from is_garbage_input_iff[of "''I a b c d uses''" "''um''" "''Um''" "''  ''" "'' ''"] h
  show ?thesis by blast
qed

section \<open>The fallbacks of \<open>_parse_question_response\<close>\<close>

text \<open>A label that does not occur in the text, in any case, is not found by the search.\<close>

lemma search_label_absent:
  "\<forall>l \<in> set labs. \<not> contains (lower l) (lower r) \<Longrightarrow> search_label labs r = None"
proof (induction r)
  case Nil
  then show ?case by simp
next
  case (Cons c cs)
  have "find (\<lambda>l. ci_prefix l (c # cs) \<and> length l < length (c # cs)) labs = None"
    using Cons.prems by (auto simp: find_None_iff ci_prefix_def lower_def)
  moreover have "\<forall>l \<in> set labs. \<not> contains (lower l) (lower cs)"
    using Cons.prems by (auto simp: lower_def)
  ultimately show ?case using Cons.IH by simp
qed

lemma matches_absent:
  assumes "\<not> contains ''question_title:'' (lower r)"
    and "\<not> contains ''question_text:'' (lower r)"
    and "\<not> contains ''verbal:'' (lower r)"
    and "\<not> contains ''explanation:'' (lower r)"
  shows "title_match r = None \<and> text_match r = None \<and> exp_match r = None"
proof -
  have l: "lower ''QUESTION_TITLE:'' = ''question_title:''"
    "lower ''QUESTION_TEXT:'' = ''question_text:''"
    "lower ''VERBAL:'' = ''verbal:''"
    "lower ''EXPLANATION:'' = ''explanation:''"
    by code_simp+
  have "search_label [''QUESTION_TITLE:''] r = None"
    "search_label [''QUESTION_TEXT:''] r = None"
    "search_label [''VERBAL:'', ''EXPLANATION:''] r = None"
    using assms by (simp_all add: search_label_absent l)
  then show ?thesis
    by (simp add: title_match_def text_match_def exp_match_def)
qed

lemma default_title_clean:
  "strip (replace ''---'' [] ''Interview Question'') = ''Interview Question''"
  by code_simp

lemma parse_unmatched:
  "r \<noteq> [] \<Longrightarrow> title_match r = None \<Longrightarrow> text_match r = None \<Longrightarrow> exp_match r = None \<Longrightarrow>
   parse_question_response (Some r) =
     (''Interview Question'', strip (replace ''---'' [] r), strip (replace ''---'' [] r))"
  by (simp add: parse_question_response_def Let_def default_title_clean)

lemma reverse_example:
  "title_match ''Reverse a list --- in place.'' = None \<and>
   text_match ''Reverse a list --- in place.'' = None \<and>
   exp_match ''Reverse a list --- in place.'' = None"
  "strip (replace ''---'' [] ''Reverse a list --- in place.'') = ''Reverse a list  in place.''"
proof -
  have "lower ''Reverse a list --- in place.'' = ''reverse a list --- in place.''"
    by code_simp
  then show "title_match ''Reverse a list --- in place.'' = None \<and>
   text_match ''Reverse a list --- in place.'' = None \<and>
   exp_match ''Reverse a list --- in place.'' = None"
    by (intro matches_absent) simp_all
  show "strip (replace ''---'' [] ''Reverse a list --- in place.'') = ''Reverse a list  in place.''"
    by code_simp
qed

text \<open>
  Claim C5 as stated: for a non-empty text in which no section label matches, the question
  text and the explanation are the raw input. It fails for a text that holds the
  delimiter: the delimiter is removed from both.
\<close>

theorem parse_unlabeled_not_raw:
  "''Reverse a list --- in place.'' \<noteq> [] \<and>
   title_match ''Reverse a list --- in place.'' = None \<and>
   text_match ''Reverse a list --- in place.'' = None \<and>
   exp_match ''Reverse a list --- in place.'' = None \<and>
   parse_question_response (Some ''Reverse a list --- in place.'') \<noteq>
     (''Interview Question'', ''Reverse a list --- in place.'', ''Reverse a list --- in place.'')"
  using reverse_example by (simp add: parse_unmatched)

text \<open>
  Claim C5, amended. For \<open>None\<close> and for the empty text the parser returns the default
  title and the two literal placeholders. For a non-empty text in which none of the three
  searches matches, it returns the default title "Interview Question", and the question
  text and the explanation are both the input with every \<open>---\<close> removed and the
  surrounding whitespace trimmed.
\<close>

theorem parse_question_response_fallback:
  "parse_question_response None =
     (''Interview Question'', ''Please solve the problem.'',
      ''Let me give you a problem to work on.'') \<and>
   parse_question_response (Some []) =
     (''Interview Question'', ''Please solve the problem.'',
      ''Let me give you a problem to work on.'') \<and>
   (r \<noteq> [] \<and> title_match r = None \<and> text_match r = None \<and> exp_match r = None \<longrightarrow>
      parse_question_response (Some r) =
        (''Interview Question'', strip (replace ''---'' [] r), strip (replace ''---'' [] r)))"
proof (intro conjI impI)
  show "parse_question_response None =
     (''Interview Question'', ''Please solve the problem.'',
      ''Let me give you a problem to work on.'')"
    by (simp add: parse_question_response_def)
  show "parse_question_response (Some []) =
     (''Interview Question'', ''Please solve the problem.'',
      ''Let me give you a problem to work on.'')"
    by (simp add: parse_question_response_def)
next
  assume "r \<noteq> [] \<and> title_match r = None \<and> text_match r = None \<and> exp_match r = None"
  then show "parse_question_response (Some r) =
        (''Interview Question'', strip (replace ''---'' [] r), strip (replace ''---'' [] r))"
    by (simp add: parse_unmatched)
qed

theorem parse_question_response_fallback_witness:
  "parse_question_response (Some ''Reverse a list --- in place.'') =
     (''Interview Question'', ''Reverse a list  in place.'', ''Reverse a list  in place.'')"
proof -
  have h: "''Reverse a list --- in place.'' \<noteq> [] \<and>
        title_match ''Reverse a list --- in place.'' = None \<and>
        text_match ''Reverse a list --- in place.'' = None \<and>
        exp_match ''Reverse a list --- in place.'' = None"
    using reverse_example(1) by simp
  have "parse_question_response (Some ''Reverse a list --- in place.'') =
        (''Interview Question'', strip (replace ''---'' [] ''Reverse a list --- in place.''),
         strip (replace ''---'' [] ''Reverse a list --- in place.''))"
    by (rule parse_question_response_fallback
              [THEN conjunct2, THEN conjunct2, rule_format]) (rule h)
  then show ?thesis by (simp only: reverse_example(2))
qed

section \<open>Forced progression and the closing transition\<close>

text \<open>
  Claim C6 as stated: after a FollowUp round the engine presents the next question when
  fewer than 2 questions have been asked. It fails on a machine in \<open>FOLLOW_UP\<close> with one
  question asked: the answer is acknowledged, no question is added, and the phase stays
  \<open>FOLLOW_UP\<close>.
\<close>

theorem follow_up_round_presents_no_question:
  "state (follow_up_machine (env0 (Raises Timeout))) = FOLLOW_UP \<and>
   length (questions_asked (ctx (follow_up_machine (env0 (Raises Timeout))))) < 2 \<and>
   questions_asked (ctx (snd (process_user_input ''it returns an empty list'' []
       (follow_up_machine (env0 (Raises Timeout)))))) = [''Two Sum''] \<and>
   state (snd (process_user_input ''it returns an empty list'' []
       (follow_up_machine (env0 (Raises Timeout))))) = FOLLOW_UP \<and>
   phases (snd (process_user_input ''it returns an empty list'' []
       (follow_up_machine (env0 (Raises Timeout))))) =
     phases (follow_up_machine (env0 (Raises Timeout)))"
  by code_simp

text \<open>
  Claim C6, amended. On retry exhaustion \<open>_handle_solving_response\<close> runs
  \<open>_move_on_or_conclude\<close>, which presents the next question (one more title, phase
  \<open>CANDIDATE_SOLVING\<close>, end time untouched) if and only if fewer than 2 questions have been
  asked, and otherwise is \<open>end_interview\<close>: phase \<open>CLOSING\<close> then \<open>ENDED\<close>. After a FollowUp
  round the engine goes to \<open>CLOSING\<close> then \<open>ENDED\<close> if and only if at least 2 questions
  have been asked, and otherwise stays in its phase and presents no question. In both places
  the length of \<open>questions_asked\<close> alone decides, and whatever tasks a new machine processes,
  it never has more than 2 questions asked.
\<close>

theorem forced_progression_gate:
  "(\<not> is_garbage_input u \<and> \<not> is_asking_for_hint u \<and> \<not> seems_finished u \<and>
    max_retries (ctx m) \<le> follow_up_attempts (ctx m) + 1 \<longrightarrow>
      handle_solving_response u m =
        move_on_or_conclude (m\<lparr>ctx := (ctx m)\<lparr>follow_up_attempts := 0\<rparr>\<rparr>)) \<and>
   (length (questions_asked (ctx m)) < 2 \<longrightarrow>
      snd (move_on_or_conclude m) = snd (present_question m) \<and>
      (\<exists>t. questions_asked (ctx (snd (move_on_or_conclude m))) =
             questions_asked (ctx m) @ [t]) \<and>
      state (snd (move_on_or_conclude m)) = CANDIDATE_SOLVING \<and>
      phases (snd (move_on_or_conclude m)) =
        phases m @ [QUESTION_PRESENTING, CANDIDATE_SOLVING] \<and>
      end_time (ctx (snd (move_on_or_conclude m))) = end_time (ctx m)) \<and>
   (2 \<le> length (questions_asked (ctx m)) \<longrightarrow>
      snd (move_on_or_conclude m) = snd (end_interview m) \<and>
      questions_asked (ctx (snd (move_on_or_conclude m))) = questions_asked (ctx m) \<and>
      state (snd (move_on_or_conclude m)) = ENDED \<and>
      phases (snd (move_on_or_conclude m)) = phases m @ [CLOSING, ENDED]) \<and>
   (2 \<le> length (questions_asked (ctx m)) \<longrightarrow>
      questions_asked (ctx (snd (handle_follow_up_response u m))) = questions_asked (ctx m) \<and>
      state (snd (handle_follow_up_response u m)) = ENDED \<and>
      phases (snd (handle_follow_up_response u m)) = phases m @ [CLOSING, ENDED]) \<and>
   (length (questions_asked (ctx m)) < 2 \<longrightarrow>
      questions_asked (ctx (snd (handle_follow_up_response u m))) = questions_asked (ctx m) \<and>
      state (snd (handle_follow_up_response u m)) = state m \<and>
      phases (snd (handle_follow_up_response u m)) = phases m) \<and>
   length (questions_asked (ctx (run_tasks tts ts (new_machine w)))) \<le> 2"
proof (intro conjI impI)
  assume "\<not> is_garbage_input u \<and> \<not> is_asking_for_hint u \<and> \<not> seems_finished u \<and>
    max_retries (ctx m) \<le> follow_up_attempts (ctx m) + 1"
  then show "handle_solving_response u m =
        move_on_or_conclude (m\<lparr>ctx := (ctx m)\<lparr>follow_up_attempts := 0\<rparr>\<rparr>)"
    by (simp add: hsr_forced)
next
  assume a: "length (questions_asked (ctx m)) < 2"
  then show "snd (move_on_or_conclude m) = snd (present_question m)"
    by (simp add: move_on_or_conclude_snd)
  from a show "\<exists>t. questions_asked (ctx (snd (move_on_or_conclude m))) =
             questions_asked (ctx m) @ [t]"
    by (simp add: move_on_or_conclude_snd present_question_facts)
  from a show "state (snd (move_on_or_conclude m)) = CANDIDATE_SOLVING"
    by (simp add: move_on_or_conclude_snd present_question_facts)
  from a show "phases (snd (move_on_or_conclude m)) =
        phases m @ [QUESTION_PRESENTING, CANDIDATE_SOLVING]"
    by (simp add: move_on_or_conclude_snd present_question_facts)
  from a show "end_time (ctx (snd (move_on_or_conclude m))) = end_time (ctx m)"
    by (simp add: move_on_or_conclude_snd present_question_facts)
  from a show "questions_asked (ctx (snd (handle_follow_up_response u m))) =
      questions_asked (ctx m)"
    by (simp add: handle_follow_up_response_facts)
  from a show "state (snd (handle_follow_up_response u m)) = state m"
    by (simp add: handle_follow_up_response_facts)
  from a show "phases (snd (handle_follow_up_response u m)) = phases m"
    by (simp add: handle_follow_up_response_facts)
next
  assume b: "2 \<le> length (questions_asked (ctx m))"
  then show "snd (move_on_or_conclude m) = snd (end_interview m)"
    by (simp add: move_on_or_conclude_snd)
  from b show "questions_asked (ctx (snd (move_on_or_conclude m))) = questions_asked (ctx m)"
    by (simp add: move_on_or_conclude_snd end_interview_facts)
  from b show "state (snd (move_on_or_conclude m)) = ENDED"
    by (simp add: move_on_or_conclude_snd end_interview_facts)
  from b show "phases (snd (move_on_or_conclude m)) = phases m @ [CLOSING, ENDED]"
    by (simp add: move_on_or_conclude_snd end_interview_facts)
  from b show "questions_asked (ctx (snd (handle_follow_up_response u m))) =
      questions_asked (ctx m)"
    by (simp add: handle_follow_up_response_facts)
  from b show "state (snd (handle_follow_up_response u m)) = ENDED"
    by (simp add: handle_follow_up_response_facts)
  from b show "phases (snd (handle_follow_up_response u m)) = phases m @ [CLOSING, ENDED]"
    by (simp add: handle_follow_up_response_facts)
next
  show "length (questions_asked (ctx (run_tasks tts ts (new_machine w)))) \<le> 2"
    using capped_run_tasks[OF capped_new_machine, of tts ts w] by (simp add: capped_def)
qed


theorem forced_progression_gate_witness:
  "handle_solving_response ''it runs in linear time'' (solving_machine 4 (env0 (Raises Timeout))) =
     move_on_or_conclude ((solving_machine 4 (env0 (Raises Timeout)))\<lparr>ctx :=
        (ctx (solving_machine 4 (env0 (Raises Timeout))))\<lparr>follow_up_attempts := 0\<rparr>\<rparr>) \<and>
   state (snd (move_on_or_conclude (solving_machine 4 (env0 (Raises Timeout))))) =
     CANDIDATE_SOLVING \<and>
   state (snd (move_on_or_conclude (second_question_machine (env0 (Raises Timeout))))) = ENDED \<and>
   state (snd (handle_follow_up_response ''it returns an empty list''
     (second_question_machine (env0 (Raises Timeout))))) = ENDED \<and>
   state (snd (handle_follow_up_response ''it returns an empty list''
     (follow_up_machine (env0 (Raises Timeout))))) = FOLLOW_UP"
proof -
  let ?E = "env0 (Raises Timeout)"
  have h1: "\<not> is_garbage_input ''it runs in linear time'' \<and>
            \<not> is_asking_for_hint ''it runs in linear time'' \<and>
            \<not> seems_finished ''it runs in linear time'' \<and>
            max_retries (ctx (solving_machine 4 ?E)) \<le>
              follow_up_attempts (ctx (solving_machine 4 ?E)) + 1"
    by code_simp
  have h2: "length (questions_asked (ctx (solving_machine 4 ?E))) < 2"
    by (simp add: solving_machine_def new_context_def)
  have h3: "2 \<le> length (questions_asked (ctx (second_question_machine ?E)))"
    by (simp add: second_question_machine_def)
  have h4: "length (questions_asked (ctx (follow_up_machine ?E))) < 2"
    by (simp add: follow_up_machine_def solving_machine_def new_context_def)
  have s4: "state (follow_up_machine ?E) = FOLLOW_UP"
    by (simp add: follow_up_machine_def)
  note a = forced_progression_gate
             [of "''it runs in linear time''" "solving_machine 4 ?E" True "[]" ?E]
  note b = forced_progression_gate
             [of "''it returns an empty list''" "second_question_machine ?E" True "[]" ?E]
  note c = forced_progression_gate
             [of "''it returns an empty list''" "follow_up_machine ?E" True "[]" ?E]
  have 1: "handle_solving_response ''it runs in linear time'' (solving_machine 4 ?E) =
     move_on_or_conclude ((solving_machine 4 ?E)\<lparr>ctx :=
        (ctx (solving_machine 4 ?E))\<lparr>follow_up_attempts := 0\<rparr>\<rparr>)"
    by (rule a[THEN conjunct1, rule_format]) (rule h1)
  have 2: "state (snd (move_on_or_conclude (solving_machine 4 ?E))) = CANDIDATE_SOLVING"
    using a[THEN conjunct2, THEN conjunct1, rule_format, OF h2] by blast
  have 3: "state (snd (move_on_or_conclude (second_question_machine ?E))) = ENDED"
    using b[THEN conjunct2, THEN conjunct2, THEN conjunct1, rule_format, OF h3] by blast
  have 4: "state (snd (handle_follow_up_response ''it returns an empty list''
     (second_question_machine ?E))) = ENDED"
    using b[THEN conjunct2, THEN conjunct2, THEN conjunct2, THEN conjunct1, rule_format, OF h3]
    by blast
  have 5: "state (snd (handle_follow_up_response ''it returns an empty list''
     (follow_up_machine ?E))) = FOLLOW_UP"
    using c[THEN conjunct2, THEN conjunct2, THEN conjunct2, THEN conjunct2, THEN conjunct1,
            rule_format, OF h4] s4
    by simp
  from 1 2 3 4 5 show ?thesis by (intro conjI)
qed

section \<open>The generative-service wrapper\<close>


section \<open>One task at a time, in the order of queueing\<close>

text \<open>
  Claim C8. In every state that the worker thread and the threads calling \<open>queue_action\<close>
  and \<open>stop\<close> can reach, the busy flag is set exactly while the worker stands between
  setting and clearing it, and the tasks dispatched, the one in hand and the ones still
  queued are, in this order, the tasks queued so far; the worker takes a task from the
  queue only while the flag is clear and it holds no task, and it takes the oldest one.
  For one task the steps are: take it, set the flag, run \<open>_process_task\<close> with the flag set,
  clear the flag, emit \<open>task_complete\<close>. And a queue of any length is worked off task by
  task in five steps each, the state machine being the one after processing the tasks one
  after the other in the order of queueing.
\<close>

theorem worker_fifo_one_at_a_time:
  "(reachable s \<longrightarrow>
      (is_busy s \<longleftrightarrow> (\<exists>t. pos s = dispatching t) \<or> pos s = clearing) \<and>
      dispatched s @ in_hand s @ task_queue s = queued s \<and>
      (pos s = at_loop \<and> (\<exists>t. pos (run_step s) = popped t) \<longrightarrow>
         \<not> is_busy s \<and> in_hand s = [] \<and> pos (run_step s) = popped (hd (task_queue s)))) \<and>
   (pos s = at_loop \<and> running s \<and> \<not> is_busy s \<and> task_queue s = t # q \<longrightarrow>
      pos ((run_step ^^ 2) s) = dispatching t \<and>
      is_busy ((run_step ^^ 2) s) \<and>
      interview_state ((run_step ^^ 2) s) = interview_state s \<and>
      is_busy ((run_step ^^ 3) s) \<and>
      interview_state ((run_step ^^ 3) s) =
        snd (process_task (tts_engine s) t (interview_state s)) \<and>
      \<not> is_busy ((run_step ^^ 4) s) \<and>
      emitted ((run_step ^^ 4) s) =
        emitted s @ fst (process_task (tts_engine s) t (interview_state s)) \<and>
      emitted ((run_step ^^ 5) s) = emitted ((run_step ^^ 4) s) @ [task_complete] \<and>
      pos ((run_step ^^ 5) s) = at_loop \<and>
      task_queue ((run_step ^^ 5) s) = q) \<and>
   (pos s = at_loop \<and> running s \<and> \<not> is_busy s \<longrightarrow>
      (run_step ^^ (5 * length (task_queue s))) s =
        s\<lparr>task_queue := [],
          interview_state := run_tasks (tts_engine s) (task_queue s) (interview_state s),
          emitted := emitted s @ run_signals (tts_engine s) (task_queue s) (interview_state s),
          dispatched := dispatched s @ task_queue s\<rparr>)"
proof (intro conjI impI)
  assume r: "reachable s"
  from worker_inv_reachable[OF r]
  show "is_busy s \<longleftrightarrow> (\<exists>t. pos s = dispatching t) \<or> pos s = clearing"
    and "dispatched s @ in_hand s @ task_queue s = queued s"
    by (simp_all add: worker_inv_def)
next
  assume a: "pos s = at_loop \<and> (\<exists>t. pos (run_step s) = popped t)"
  then show "\<not> is_busy s" by (auto simp: run_step_def split: if_splits)
  from a show "in_hand s = []" by (simp add: in_hand_def)
  from a show "pos (run_step s) = popped (hd (task_queue s))"
    by (auto simp: run_step_def split: if_splits)
next
  assume a: "pos s = at_loop \<and> running s \<and> \<not> is_busy s \<and> task_queue s = t # q"
  then have p: "pos s = at_loop" "running s" "\<not> is_busy s" "task_queue s = t # q"
    by simp_all
  note o = one_task[OF p]
  show "pos ((run_step ^^ 2) s) = dispatching t" by (simp add: o(2))
  show "is_busy ((run_step ^^ 2) s)" by (simp add: o(2))
  show "interview_state ((run_step ^^ 2) s) = interview_state s" by (simp add: o(2))
  show "is_busy ((run_step ^^ 3) s)" by (simp add: o(3))
  show "interview_state ((run_step ^^ 3) s) =
        snd (process_task (tts_engine s) t (interview_state s))" by (simp add: o(3))
  show "\<not> is_busy ((run_step ^^ 4) s)" by (simp add: o(4))
  show "emitted ((run_step ^^ 4) s) =
        emitted s @ fst (process_task (tts_engine s) t (interview_state s))"
    by (simp add: o(4))
  show "emitted ((run_step ^^ 5) s) = emitted ((run_step ^^ 4) s) @ [task_complete]"
    by (simp add: o(4) o(5))
  show "pos ((run_step ^^ 5) s) = at_loop" using p by (simp add: o(5))
  show "task_queue ((run_step ^^ 5) s) = q" by (simp add: o(5))
next
  assume "pos s = at_loop \<and> running s \<and> \<not> is_busy s"
  then show "(run_step ^^ (5 * length (task_queue s))) s =
        s\<lparr>task_queue := [],
          interview_state := run_tasks (tts_engine s) (task_queue s) (interview_state s),
          emitted := emitted s @ run_signals (tts_engine s) (task_queue s) (interview_state s),
          dispatched := dispatched s @ task_queue s\<rparr>"
    by (simp add: drain)
qed

theorem worker_fifo_one_at_a_time_witness:
  "dispatched two_task_worker @ in_hand two_task_worker @ task_queue two_task_worker =
     [start_task, end_task] \<and>
   \<not> is_busy two_task_worker \<and>
   is_busy ((run_step ^^ 2) two_task_worker) \<and>
   \<not> is_busy ((run_step ^^ 4) two_task_worker) \<and>
   dispatched ((run_step ^^ (5 * length (task_queue two_task_worker))) two_task_worker) =
     [start_task, end_task] \<and>
   task_queue ((run_step ^^ (5 * length (task_queue two_task_worker))) two_task_worker) = []"
proof -
  let ?W = two_task_worker
  have r: "reachable ?W"
    unfolding two_task_worker_def
    by (intro reachable.next_step[OF _ step.producer] reachable.init)
  have p: "pos ?W = at_loop \<and> running ?W \<and> \<not> is_busy ?W \<and>
           task_queue ?W = start_task # [end_task]"
    by (simp add: two_task_worker_def queue_action_def new_worker_def)
  have p': "pos ?W = at_loop \<and> running ?W \<and> \<not> is_busy ?W"
    using p by simp
  have q: "queued ?W = [start_task, end_task]" "dispatched ?W = []"
    by (simp_all add: two_task_worker_def queue_action_def new_worker_def)
  note w = worker_fifo_one_at_a_time[of ?W start_task "[end_task]"]
  have 1: "dispatched ?W @ in_hand ?W @ task_queue ?W = queued ?W"
    using w[THEN conjunct1, rule_format, OF r] by blast
  have 2: "is_busy ((run_step ^^ 2) ?W) \<and> \<not> is_busy ((run_step ^^ 4) ?W)"
    using w[THEN conjunct2, THEN conjunct1, rule_format, OF p] by blast
  have 3: "(run_step ^^ (5 * length (task_queue ?W))) ?W =
        ?W\<lparr>task_queue := [],
          interview_state := run_tasks (tts_engine ?W) (task_queue ?W) (interview_state ?W),
          emitted := emitted ?W @ run_signals (tts_engine ?W) (task_queue ?W) (interview_state ?W),
          dispatched := dispatched ?W @ task_queue ?W\<rparr>"
    by (rule w[THEN conjunct2, THEN conjunct2, rule_format, OF p'])
  have 4: "dispatched ((run_step ^^ (5 * length (task_queue ?W))) ?W) =
             dispatched ?W @ task_queue ?W"
    by (subst 3) simp
  have 5: "task_queue ((run_step ^^ (5 * length (task_queue ?W))) ?W) = []"
    by (subst 3) simp
  from 1 2 4 5 p q show ?thesis by simp
qed


section \<open>The session summary\<close>




section \<open>What every call of \<open>process_user_input\<close> records\<close>

text \<open>
  Claim C10. For every call of \<open>process_user_input\<close>, in whatever phase, the supplied
  code snapshot is the \<open>current_code\<close> afterwards and the transcript afterwards extends
  the old transcript followed by the user's utterance; the handler of \<open>CANDIDATE_SOLVING\<close>,
  where the classifiers are, runs on the machine that already holds both; and for an
  utterance the garbage classifier matches the transcript is exactly the old one followed
  by the utterance.
\<close>

theorem process_user_input_records_input:
  "current_code (ctx (snd (process_user_input u c m))) = c \<and>
   prefix (transcript (ctx m) @
             [\<lparr>speaker = ''User'', spoken = u, timestamp = clock (env m) (reads (env m))\<rparr>])
          (transcript (ctx (snd (process_user_input u c m)))) \<and>
   (state m = CANDIDATE_SOLVING \<longrightarrow>
      process_user_input u c m =
        handle_solving_response u
          ((add_to_transcript ''User'' u m)\<lparr>ctx :=
             (ctx (add_to_transcript ''User'' u m))\<lparr>current_code := c\<rparr>\<rparr>)) \<and>
   (state m = CANDIDATE_SOLVING \<and> is_garbage_input u \<longrightarrow>
      transcript (ctx (snd (process_user_input u c m))) =
        transcript (ctx m) @
          [\<lparr>speaker = ''User'', spoken = u, timestamp = clock (env m) (reads (env m))\<rparr>])"
proof (intro conjI impI)
  let ?m2 = "(add_to_transcript ''User'' u m)\<lparr>ctx :=
               (ctx (add_to_transcript ''User'' u m))\<lparr>current_code := c\<rparr>\<rparr>"
  have e: "evolves ?m2 (snd (process_user_input u c m))"
    by (rule evolves_process_user_input)
  from e show "current_code (ctx (snd (process_user_input u c m))) = c"
    by (simp add: evolves_def)
  from e show "prefix (transcript (ctx m) @
             [\<lparr>speaker = ''User'', spoken = u, timestamp = clock (env m) (reads (env m))\<rparr>])
          (transcript (ctx (snd (process_user_input u c m))))"
    by (simp add: evolves_def frame)
next
  assume "state m = CANDIDATE_SOLVING"
  then show "process_user_input u c m =
        handle_solving_response u
          ((add_to_transcript ''User'' u m)\<lparr>ctx :=
             (ctx (add_to_transcript ''User'' u m))\<lparr>current_code := c\<rparr>\<rparr>)"
    by (simp add: process_user_input_def Let_def frame)
next
  assume "state m = CANDIDATE_SOLVING \<and> is_garbage_input u"
  then show "transcript (ctx (snd (process_user_input u c m))) =
        transcript (ctx m) @
          [\<lparr>speaker = ''User'', spoken = u, timestamp = clock (env m) (reads (env m))\<rparr>]"
    by (simp add: process_user_input_def Let_def frame hsr_garbage)
qed

theorem process_user_input_records_input_witness:
  "current_code (ctx (snd (process_user_input ''um'' ''x = 1''
      (solving_machine 2 (env0 (Raises Timeout)))))) = ''x = 1'' \<and>
   transcript (ctx (snd (process_user_input ''um'' ''x = 1''
      (solving_machine 2 (env0 (Raises Timeout)))))) =
     [\<lparr>speaker = ''User'', spoken = ''um'', timestamp = 0\<rparr>]"
proof -
  let ?M = "solving_machine 2 (env0 (Raises Timeout))"
  have h: "state ?M = CANDIDATE_SOLVING \<and> is_garbage_input ''um''"
    by code_simp
  note t = process_user_input_records_input[of "''um''" "''x = 1''" ?M]
  have 1: "current_code (ctx (snd (process_user_input ''um'' ''x = 1'' ?M))) = ''x = 1''"
    by (rule t[THEN conjunct1])
  have 2: "transcript (ctx (snd (process_user_input ''um'' ''x = 1'' ?M))) =
        transcript (ctx ?M) @
          [\<lparr>speaker = ''User'', spoken = ''um'', timestamp = clock (env ?M) (reads (env ?M))\<rparr>]"
    by (rule t[THEN conjunct2, THEN conjunct2, THEN conjunct2, rule_format]) (rule h)
  have 3: "transcript (ctx ?M) = [] \<and> clock (env ?M) (reads (env ?M)) = 0"
    by (simp add: solving_machine_def env0_def new_context_def)
  from 1 2 3 show ?thesis by simp
qed


end
